theory Spec2Isabelle
  imports Main "HOL-Library.Word"
begin

unbundle bit_operations_syntax

section \<open>The CZDB reader (package sdk): data model\<close>

text \<open>
  A shallow embedding of the reader of \<^verbatim>\<open>format/czdb/sdk\<close>. Go's \<^verbatim>\<open>int\<close> is taken as
  a mathematical integer (on a 64-bit platform no sum of 32-bit file fields leaves its
  range), \<^verbatim>\<open>uint32\<close> as \<open>32 word\<close>, \<^verbatim>\<open>[]byte\<close> as a list of \<open>8 word\<close> (the nil slice is
  the empty list). A call either returns or panics; a Go \<^verbatim>\<open>error\<close> result is a value.
\<close>

type_synonym byte = "8 word"
type_synonym bytes = "byte list"

datatype error =
    ErrKeyRequired
  | ErrInvalidDatabase
  | CorruptInputError nat
  | CipherError
  | MsgpackError

datatype 'a outcome = Returned 'a | Panicked

subsection \<open>Constants (const.go)\<close>

definition HyperHeaderLength :: int where "HyperHeaderLength = 12"
definition SuperPartLength :: int where "SuperPartLength = 17"
definition HeaderBlockLength :: int where "HeaderBlockLength = 20"
definition IPv4 :: nat where "IPv4 = 0"
definition IPv4Length :: int where "IPv4Length = 4"
definition IPv4IndexBlockLength :: int where "IPv4IndexBlockLength = 13"
definition IPv6 :: nat where "IPv6 = 1"
definition IPv6Length :: int where "IPv6Length = 16"
definition IPv6IndexBlockLength :: int where "IPv6IndexBlockLength = 37"
definition TempDataNotFound :: string where "TempDataNotFound = ''DataNotFound''"

lemmas consts_defs =
  HyperHeaderLength_def SuperPartLength_def HeaderBlockLength_def IPv4_def IPv4Length_def
  IPv4IndexBlockLength_def IPv6_def IPv6Length_def IPv6IndexBlockLength_def

subsection \<open>Slices, indexing and integer operators of Go\<close>

text \<open>
  \<^verbatim>\<open>s[lo:hi]\<close>, \<^verbatim>\<open>s[lo:]\<close> and \<^verbatim>\<open>s[i]\<close> panic out of range; \<open>None\<close> is the panic. A slice
  is given by its elements \<open>s\<close> and by the elements \<open>sl\<close> that follow them in its array up
  to its capacity. \<^verbatim>\<open>s[lo:hi]\<close> is checked against the capacity and may reach into \<open>sl\<close>;
  \<^verbatim>\<open>s[lo:]\<close> ends at the length, and so does indexing.
\<close>

definition subslice :: "'a list \<Rightarrow> 'a list \<Rightarrow> int \<Rightarrow> int \<Rightarrow> 'a list option" where
  "subslice s sl lo hi =
     (if 0 \<le> lo \<and> lo \<le> hi \<and> hi \<le> int (length s) + int (length sl)
      then Some (take (nat (hi - lo)) (drop (nat lo) (s @ sl))) else None)"

definition subslice_from :: "'a list \<Rightarrow> int \<Rightarrow> 'a list option" where
  "subslice_from s lo =
     (if 0 \<le> lo \<and> lo \<le> int (length s) then Some (drop (nat lo) s) else None)"

definition index :: "'a list \<Rightarrow> int \<Rightarrow> 'a option" where
  "index s i = (if 0 \<le> i \<and> i < int (length s) then Some (s ! nat i) else None)"

text \<open>\<^verbatim>\<open>a / b\<close> on \<^verbatim>\<open>int\<close> truncates towards zero; the caller checks \<open>b \<noteq> 0\<close>.\<close>

definition go_div :: "int \<Rightarrow> int \<Rightarrow> int" where
  "go_div a b = sgn a * sgn b * (\<bar>a\<bar> div \<bar>b\<bar>)"

text \<open>\<^verbatim>\<open>binary.LittleEndian.Uint32(b)\<close>: panics when \<^verbatim>\<open>b\<close> has fewer than four bytes.\<close>

definition le32 :: "byte \<Rightarrow> byte \<Rightarrow> byte \<Rightarrow> byte \<Rightarrow> 32 word" where
  "le32 b0 b1 b2 b3 =
     ucast b0 OR push_bit 8 (ucast b1) OR push_bit 16 (ucast b2) OR push_bit 24 (ucast b3)"

fun Uint32 :: "bytes \<Rightarrow> 32 word option" where
  "Uint32 (b0 # b1 # b2 # b3 # _) = Some (le32 b0 b1 b2 b3)"
| "Uint32 _ = None"

text \<open>\<^verbatim>\<open>bytes.Compare\<close>: lexicographic on unsigned bytes, a proper prefix is smaller.\<close>

fun bytes_Compare :: "bytes \<Rightarrow> bytes \<Rightarrow> int" where
  "bytes_Compare [] [] = 0"
| "bytes_Compare [] (y # ys) = -1"
| "bytes_Compare (x # xs) [] = 1"
| "bytes_Compare (x # xs) (y # ys) =
     (if x < y then -1 else if y < x then 1 else bytes_Compare xs ys)"

subsection \<open>The part of package net that Find uses\<close>

definition v4InV6Prefix :: bytes where
  "v4InV6Prefix = [0, 0, 0, 0, 0, 0, 0, 0, 0, 0, 0xff, 0xff]"

text \<open>\<^verbatim>\<open>net.IPv4(a, b, c, d)\<close> is the 16-byte form.\<close>

definition net_IPv4 :: "byte \<Rightarrow> byte \<Rightarrow> byte \<Rightarrow> byte \<Rightarrow> bytes" where
  "net_IPv4 a b c d = v4InV6Prefix @ [a, b, c, d]"

definition IPv4zero :: bytes where "IPv4zero = net_IPv4 0 0 0 0"
definition IPv6zero :: bytes where "IPv6zero = replicate 16 0"

definition To4 :: "bytes \<Rightarrow> bytes" where
  "To4 ip =
     (if length ip = 4 then ip
      else if length ip = 16 \<and> take 10 ip = replicate 10 0 \<and> ip ! 10 = 0xff \<and> ip ! 11 = 0xff
      then drop 12 ip
      else [])"

definition To16 :: "bytes \<Rightarrow> bytes" where
  "To16 ip =
     (if length ip = 4 then net_IPv4 (ip ! 0) (ip ! 1) (ip ! 2) (ip ! 3)
      else if length ip = 16 then ip
      else [])"

definition IP_Equal :: "bytes \<Rightarrow> bytes \<Rightarrow> bool" where
  "IP_Equal ip x =
     (if length ip = length x then ip = x
      else if length ip = 4 \<and> length x = 16 then take 12 x = v4InV6Prefix \<and> ip = drop 12 x
      else if length ip = 16 \<and> length x = 4 then take 12 ip = v4InV6Prefix \<and> drop 12 ip = x
      else False)"

text \<open>
  Modelled from the spec: \<^verbatim>\<open>ipnet.LastIPv4\<close> (package ipnet) is the last IPv4 address; the
  spec gives its 16-byte form as \<^verbatim>\<open>::ffff:ffff:ffff\<close>.
\<close>

definition LastIPv4 :: bytes where "LastIPv4 = net_IPv4 0xff 0xff 0xff 0xff"

subsection \<open>The reader and its collaborators\<close>

record Range =
  Start :: bytes
  End :: bytes

record Geo =
  gdata :: bytes
  columnSelection :: int

record Reader =
  Key :: string
  data :: bytes
  slack :: bytes
  version :: "32 word"
  clientID :: "32 word"
  encryptedDataLength :: int
  decClientID :: "32 word"
  decExpirationDate :: "32 word"
  decRandomBytesLength :: int
  dbType :: nat
  fileSize :: int
  firstIndexPtr :: int
  totalHeaderBlockSize :: int
  lastIndexPtr :: int
  inited :: bool
  initOnce :: bool
  initErr :: "error option"
  offset :: int
  ipLength :: int
  indexBlockLength :: int
  geo :: Geo
  headerIPs :: "bytes list"
  headerPtrs :: "int list"
  headerLen :: int

text \<open>
  Code outside the package, taken as parameters: base64 decoding of the standard library,
  the two decryption helpers of the package (their file is not part of the sources at
  hand) and the three msgpack decoder calls. A decoder is the list of bytes it has not
  read yet. \<^verbatim>\<open>AesECBDecrypt\<close> returns a slice that the reader slices again: its result
  is the elements of that slice and the elements after them up to its capacity.
\<close>

record ext =
  base64_DecodeString :: "string \<Rightarrow> error + bytes"
  AesECBDecrypt :: "bytes \<Rightarrow> bytes \<Rightarrow> error + (bytes \<times> bytes)"
  XorDecrypt :: "bytes \<Rightarrow> bytes \<Rightarrow> bytes"
  DecodeInt64 :: "bytes \<Rightarrow> error + (int \<times> bytes)"
  DecodeString :: "bytes \<Rightarrow> error + (string \<times> bytes)"
  DecodeArrayLen :: "bytes \<Rightarrow> error + (int \<times> bytes)"

section \<open>Construction and initialisation (reader.go, init part)\<close>

text \<open>
  \<^verbatim>\<open>NewReader\<close> on the slice that \<^verbatim>\<open>io.ReadAll\<close> returns (opening and reading the file is
  outside the model): \<open>d\<close> is the bytes of the file, \<open>sl\<close> the rest of the buffer of
  \<^verbatim>\<open>io.ReadAll\<close> up to its capacity, whatever it holds. All other fields have Go's zero
  value.
\<close>

definition NewReader :: "bytes \<Rightarrow> bytes \<Rightarrow> error + Reader" where
  "NewReader d sl =
     (if int (length d) < HyperHeaderLength then Inl ErrInvalidDatabase
      else
        let r = \<lparr> Key = [], data = d, slack = sl,
                  version = the (Uint32 (take 4 d)),
                  clientID = the (Uint32 (drop 4 d)),
                  encryptedDataLength = uint (the (Uint32 (drop 8 d))),
                  decClientID = 0, decExpirationDate = 0, decRandomBytesLength = 0,
                  dbType = 0, fileSize = 0, firstIndexPtr = 0, totalHeaderBlockSize = 0,
                  lastIndexPtr = 0, inited = False, initOnce = False, initErr = None,
                  offset = 0, ipLength = 0, indexBlockLength = 0,
                  geo = \<lparr> gdata = [], columnSelection = 0 \<rparr>,
                  headerIPs = [], headerPtrs = [], headerLen = 0 \<rparr>
        in if int (length d) < encryptedDataLength r + HyperHeaderLength
           then Inl ErrInvalidDatabase else Inr r)"

definition validateKey :: "ext \<Rightarrow> Reader \<Rightarrow> error option" where
  "validateKey x r =
     (if Key r = [] then Some ErrKeyRequired
      else case base64_DecodeString x (Key r) of Inl e \<Rightarrow> Some e | Inr _ \<Rightarrow> None)"

text \<open>
  The functions that write the reader return the reader with the result, so that the
  fields already written are still written when a later statement panics.
\<close>

definition decryptHyperHeader :: "ext \<Rightarrow> Reader \<Rightarrow> Reader \<times> error option outcome" where
  "decryptHyperHeader x r =
     (case base64_DecodeString x (Key r) of
        Inl e \<Rightarrow> (r, Returned (Some e))
      | Inr keyBytes \<Rightarrow>
          (case subslice (data r) (slack r) HyperHeaderLength (HyperHeaderLength + encryptedDataLength r) of
             None \<Rightarrow> (r, Panicked)
           | Some enc \<Rightarrow>
               (case AesECBDecrypt x enc keyBytes of
                  Inl e \<Rightarrow> (r, Returned (Some e))
                | Inr (decryptedData, spare) \<Rightarrow>
                    (case Option.bind (subslice decryptedData spare 0 4) Uint32 of
                       None \<Rightarrow> (r, Panicked)
                     | Some w \<Rightarrow>
                         let r1 = r\<lparr> decClientID := drop_bit 20 w \<rparr>;
                             r2 = r1\<lparr> decExpirationDate := w AND 0xFFFFF \<rparr>
                         in (case Option.bind (subslice decryptedData spare 4 8) Uint32 of
                               None \<Rightarrow> (r2, Panicked)
                             | Some n \<Rightarrow>
                                 let r3 = r2\<lparr> decRandomBytesLength := uint n \<rparr>
                                 in (r3\<lparr> offset := HyperHeaderLength + encryptedDataLength r3
                                                     + decRandomBytesLength r3 \<rparr>,
                                     Returned None))))))"

definition setupIPVersion :: "Reader \<Rightarrow> Reader" where
  "setupIPVersion r =
     (if dbType r AND IPv6 = 0
      then r\<lparr> ipLength := IPv4Length, indexBlockLength := IPv4IndexBlockLength \<rparr>
      else r\<lparr> ipLength := IPv6Length, indexBlockLength := IPv6IndexBlockLength \<rparr>)"

definition parseSuperPart :: "Reader \<Rightarrow> Reader \<times> error option outcome" where
  "parseSuperPart r =
     (case subslice (data r) (slack r) (offset r) (offset r + SuperPartLength) of
        None \<Rightarrow> (r, Panicked)
      | Some superPartData \<Rightarrow>
          (setupIPVersion
             (r\<lparr> dbType := unat (superPartData ! 0),
                 fileSize := uint (the (Uint32 (take 4 (drop 1 superPartData)))),
                 firstIndexPtr := uint (the (Uint32 (take 4 (drop 5 superPartData)))),
                 totalHeaderBlockSize := uint (the (Uint32 (take 4 (drop 9 superPartData)))),
                 lastIndexPtr := uint (the (Uint32 (drop 13 superPartData))) \<rparr>),
           Returned None))"

text \<open>
  The loop of \<^verbatim>\<open>parseHeaderBlocks\<close>, with its counters \<^verbatim>\<open>i\<close> and \<^verbatim>\<open>idx\<close>: the result is the
  reader and the final \<^verbatim>\<open>idx\<close>, or \<open>None\<close> for a panic.
\<close>

function parseHeaderBlocks_loop :: "Reader \<Rightarrow> int \<Rightarrow> int \<Rightarrow> Reader \<times> int option" where
  "parseHeaderBlocks_loop r i idx =
     (if i < totalHeaderBlockSize r then
        (case Option.bind (subslice_from (data r) (offset r + SuperPartLength + i + 16)) Uint32 of
           None \<Rightarrow> (r, None)
         | Some headerPtr \<Rightarrow>
             if headerPtr = 0 then (r, Some idx)
             else
               (case subslice (data r) (slack r) (offset r + SuperPartLength + i)
                            (offset r + SuperPartLength + i + 16) of
                  None \<Rightarrow> (r, None)
                | Some hip \<Rightarrow>
                    if \<not> (0 \<le> idx \<and> idx < int (length (headerIPs r))) then (r, None)
                    else
                      let r1 = r\<lparr> headerIPs := (headerIPs r)[nat idx := hip] \<rparr>
                      in if \<not> (0 \<le> idx \<and> idx < int (length (headerPtrs r1))) then (r1, None)
                         else parseHeaderBlocks_loop
                                (r1\<lparr> headerPtrs := (headerPtrs r1)[nat idx := uint headerPtr] \<rparr>)
                                (i + HeaderBlockLength) (idx + 1)))
      else (r, Some idx))"
  by pat_completeness auto

termination
  by (relation "measure (\<lambda>(r, i, idx). nat (totalHeaderBlockSize r - i))")
     (auto simp: HeaderBlockLength_def)

declare parseHeaderBlocks_loop.simps [simp del]

definition parseHeaderBlocks :: "Reader \<Rightarrow> Reader \<times> error option outcome" where
  "parseHeaderBlocks r =
     (let n = go_div (totalHeaderBlockSize r) HeaderBlockLength in
      if n < 0 then (r, Panicked)
      else
        let r1 = r\<lparr> headerIPs := replicate (nat n) [] \<rparr>;
            r2 = r1\<lparr> headerPtrs := replicate (nat n) 0 \<rparr>
        in (case parseHeaderBlocks_loop r2 0 0 of
              (r3, None) \<Rightarrow> (r3, Panicked)
            | (r3, Some idx) \<Rightarrow> (r3\<lparr> headerLen := idx \<rparr>, Returned None)))"

definition loadGeoSetting :: "ext \<Rightarrow> Reader \<Rightarrow> Reader \<times> error option outcome" where
  "loadGeoSetting x r =
     (case base64_DecodeString x (Key r) of
        Inl e \<Rightarrow> (r, Returned (Some e))
      | Inr keyBytes \<Rightarrow>
          let a = offset r + lastIndexPtr r + indexBlockLength r in
          (case Option.bind (subslice (data r) (slack r) a (a + 4)) Uint32 of
             None \<Rightarrow> (r, Panicked)
           | Some cs \<Rightarrow>
               let r1 = r\<lparr> geo := (geo r)\<lparr> columnSelection := uint cs \<rparr> \<rparr> in
               if columnSelection (geo r1) \<noteq> 0 then
                 (case Option.bind (subslice (data r1) (slack r1) (a + 4) (a + 8)) Uint32 of
                    None \<Rightarrow> (r1, Panicked)
                  | Some gl \<Rightarrow>
                      let geoDataLength = uint gl in
                      (case subslice (data r1) (slack r1) (a + 8) (a + 8 + geoDataLength) of
                         None \<Rightarrow> (r1, Panicked)
                       | Some enc \<Rightarrow>
                           (r1\<lparr> geo := (geo r1)\<lparr> gdata := XorDecrypt x enc keyBytes \<rparr> \<rparr>,
                            Returned None)))
               else (r1, Returned None)))"

definition Init :: "ext \<Rightarrow> Reader \<Rightarrow> Reader \<times> error option outcome" where
  "Init x r =
     (case validateKey x r of
        Some e \<Rightarrow> (r, Returned (Some e))
      | None \<Rightarrow>
          (case decryptHyperHeader x r of
             (r1, Returned None) \<Rightarrow>
               (case parseSuperPart r1 of
                  (r2, Returned None) \<Rightarrow>
                    (case parseHeaderBlocks r2 of
                       (r3, Returned None) \<Rightarrow>
                         (case loadGeoSetting x r3 of
                            (r4, Returned None) \<Rightarrow> (r4\<lparr> inited := True \<rparr>, Returned None)
                          | (r4, res) \<Rightarrow> (r4, res))
                     | (r3, res) \<Rightarrow> (r3, res))
                | (r2, res) \<Rightarrow> (r2, res))
           | (r1, res) \<Rightarrow> (r1, res)))"

section \<open>Record decoding (Geo.ParseGeoInfo)\<close>

text \<open>
  The dictionary is sliced only after pointer plus length has been compared with its
  length, so the slice expression never reaches past the length and the elements after
  it (up to the capacity) are left out of \<open>Geo\<close>.
\<close>

text \<open>
  The loop over the columns: \<^verbatim>\<open>i\<close> counts up to \<^verbatim>\<open>columnNumber\<close>, the decoder and the
  text collected so far are carried along.
\<close>

function ParseGeoInfo_loop ::
    "ext \<Rightarrow> Geo \<Rightarrow> int \<Rightarrow> int \<Rightarrow> bytes \<Rightarrow> string \<Rightarrow> error + string" where
  "ParseGeoInfo_loop x g columnNumber i decoder info =
     (if i < columnNumber then
        (case DecodeString x decoder of
           Inl e \<Rightarrow> Inl e
         | Inr (v, decoder') \<Rightarrow>
             if drop_bit (nat (i + 1)) (columnSelection g) AND 1 = 1
             then ParseGeoInfo_loop x g columnNumber (i + 1) decoder'
                    (info @ (if v = [] then ''null'' else v) @ [CHR 0x09])
             else ParseGeoInfo_loop x g columnNumber (i + 1) decoder' info)
      else Inr info)"
  by pat_completeness auto
termination
  by (relation "measure (\<lambda>(x, g, columnNumber, i, decoder, info). nat (columnNumber - i))")
     auto

declare ParseGeoInfo_loop.simps [simp del]

definition ParseGeoInfo :: "ext \<Rightarrow> Geo \<Rightarrow> bytes \<Rightarrow> (error + string) outcome" where
  "ParseGeoInfo x g d =
     (case DecodeInt64 x d of
        Inl e \<Rightarrow> Returned (Inl e)
      | Inr (geoPosMixSize, decoder) \<Rightarrow>
          (case DecodeString x decoder of
             Inl e \<Rightarrow> Returned (Inl e)
           | Inr (otherData, _) \<Rightarrow>
               if geoPosMixSize = 0 then Returned (Inr otherData)
               else
                 let dataLen = drop_bit 24 geoPosMixSize AND 0xFF;
                     dataPtr = geoPosMixSize AND 0x00FFFFFF
                 in if int (length (gdata g)) < dataPtr + dataLen
                    then Returned (Inl ErrInvalidDatabase)
                    else
                      (case subslice (gdata g) [] dataPtr (dataPtr + dataLen) of
                         None \<Rightarrow> Panicked
                       | Some entry \<Rightarrow>
                           (case DecodeArrayLen x entry of
                              Inl e \<Rightarrow> Returned (Inl e)
                            | Inr (columnNumber, decoder2) \<Rightarrow>
                                (case ParseGeoInfo_loop x g columnNumber 0 decoder2 [] of
                                   Inl e \<Rightarrow> Returned (Inl e)
                                 | Inr info \<Rightarrow>
                                     Returned (Inr (info @ [CHR 0x09] @ otherData)))))))"

section \<open>The two-level search (reader.go)\<close>

text \<open>
  The loop of \<^verbatim>\<open>searchHeader\<close>: the result is \<^verbatim>\<open>(l, h, sptr, eptr)\<close> when the loop is
  left, \<open>None\<close> for an index out of range. \<^verbatim>\<open>sptr\<close> and \<^verbatim>\<open>eptr\<close> keep their zero value
  unless the loop is left by \<^verbatim>\<open>break\<close>. \<^verbatim>\<open>(l + h) >> 1\<close> rounds down, as \<open>div\<close> does.
\<close>

function searchHeader_loop ::
    "Reader \<Rightarrow> bytes \<Rightarrow> int \<Rightarrow> int \<Rightarrow> (int \<times> int \<times> int \<times> int) option" where
  "searchHeader_loop r ip l h =
     (if l \<le> h then
        let m = (l + h) div 2 in
        (case index (headerIPs r) m of
           None \<Rightarrow> None
         | Some hip \<Rightarrow>
             let cmp = bytes_Compare ip hip in
             if cmp < 0 then searchHeader_loop r ip l (m - 1)
             else if cmp > 0 then searchHeader_loop r ip (m + 1) h
             else
               (case (if m > 0 then index (headerPtrs r) (m - 1) else index (headerPtrs r) m) of
                  None \<Rightarrow> None
                | Some sptr \<Rightarrow>
                    (case index (headerPtrs r) m of
                       None \<Rightarrow> None
                     | Some eptr \<Rightarrow> Some (l, h, sptr, eptr))))
      else Some (l, h, 0, 0))"
  by pat_completeness auto
termination
  by (relation "measure (\<lambda>(r, ip, l, h). nat (h - l + 1))") auto

declare searchHeader_loop.simps [simp del]

definition searchHeader :: "Reader \<Rightarrow> bytes \<Rightarrow> (int \<times> int) option" where
  "searchHeader r ip =
     (if headerLen r = 0 then Some (0, 0)
      else
        (case searchHeader_loop r ip 0 (headerLen r - 1) of
           None \<Rightarrow> None
         | Some (l, h, sptr, eptr) \<Rightarrow>
             if l = 0 \<and> h \<le> 0 then Some (0, 0)
             else if l > h then
               (if l < headerLen r then
                  (case index (headerPtrs r) (l - 1) of
                     None \<Rightarrow> None
                   | Some s \<Rightarrow>
                       (case index (headerPtrs r) l of
                          None \<Rightarrow> None
                        | Some e \<Rightarrow> Some (s, e)))
                else if h \<ge> 0 \<and> h + 1 < headerLen r then
                  (case index (headerPtrs r) h of
                     None \<Rightarrow> None
                   | Some s \<Rightarrow>
                       (case index (headerPtrs r) (h + 1) of
                          None \<Rightarrow> None
                        | Some e \<Rightarrow> Some (s, e)))
                else
                  (case index (headerPtrs r) (headerLen r - 1) of
                     None \<Rightarrow> None
                   | Some s \<Rightarrow> Some (s, s + indexBlockLength r)))
             else Some (sptr, eptr)))"

text \<open>
  The loop of \<^verbatim>\<open>searchIndex\<close>: \<^verbatim>\<open>sip\<close>, \<^verbatim>\<open>eip\<close>, \<^verbatim>\<open>dataPtr\<close> and \<^verbatim>\<open>dataLen\<close> are written
  only in the branch that leaves the loop by \<^verbatim>\<open>break\<close>, so the loop returns them and is
  given their initial values for the case that it runs out.
\<close>

function searchIndex_loop ::
    "Reader \<Rightarrow> int \<Rightarrow> bytes \<Rightarrow> bytes \<Rightarrow> bytes \<Rightarrow> int \<Rightarrow> int
       \<Rightarrow> (bytes \<times> bytes \<times> int \<times> int) option" where
  "searchIndex_loop r sptr ip sip eip l h =
     (if l \<le> h then
        let m = (l + h) div 2;
            p = sptr + m * indexBlockLength r
        in
        (case subslice (data r) (slack r) (offset r + p) (offset r + p + ipLength r) of
           None \<Rightarrow> None
         | Some s1 \<Rightarrow>
             (case subslice (data r) (slack r) (offset r + p + ipLength r) (offset r + p + 2 * ipLength r) of
                None \<Rightarrow> None
              | Some s2 \<Rightarrow>
                  let cmpStart = bytes_Compare ip s1;
                      cmpEnd = bytes_Compare ip s2
                  in
                  if cmpStart \<ge> 0 \<and> cmpEnd \<le> 0 then
                    (case Option.bind (subslice_from (data r) (offset r + p + 2 * ipLength r)) Uint32 of
                       None \<Rightarrow> None
                     | Some dp \<Rightarrow>
                         (case index (data r) (offset r + p + 2 * ipLength r + 4) of
                            None \<Rightarrow> None
                          | Some dl \<Rightarrow>
                              Some (take (length sip) s1 @ drop (length s1) sip,
                                    take (length eip) s2 @ drop (length s2) eip,
                                    uint dp, uint dl)))
                  else if cmpStart < 0 then searchIndex_loop r sptr ip sip eip l (m - 1)
                  else searchIndex_loop r sptr ip sip eip (m + 1) h))
      else Some (sip, eip, 0, 0))"
  by pat_completeness auto
termination
  by (relation "measure (\<lambda>(r, sptr, ip, sip, eip, l, h). nat (h - l + 1))") auto

declare searchIndex_loop.simps [simp del]

definition searchIndex ::
    "Reader \<Rightarrow> int \<Rightarrow> int \<Rightarrow> bytes \<Rightarrow> (bytes \<times> bytes \<times> int \<times> int) option" where
  "searchIndex r sptr eptr ip =
     (if indexBlockLength r = 0 \<or> ipLength r < 0 then None
      else searchIndex_loop r sptr ip
             (replicate (nat (ipLength r)) 0) (replicate (nat (ipLength r)) 0)
             0 (go_div (eptr - sptr) (indexBlockLength r)))"

section \<open>Find\<close>

text \<open>
  Lines 161 to 168 of reader.go, the lazy initialisation: \<^verbatim>\<open>initOnce\<close> is the flag of
  \<^verbatim>\<open>sync.Once\<close>, set when \<^verbatim>\<open>Init\<close> has been called once, also when that call panicked.
  The result is the error that \<^verbatim>\<open>Find\<close> returns at once, or none.
\<close>

definition Find_init :: "ext \<Rightarrow> Reader \<Rightarrow> Reader \<times> error option outcome" where
  "Find_init x r =
     (if \<not> inited r then
        (if \<not> initOnce r then
           (case Init x r of
              (r1, Panicked) \<Rightarrow> (r1\<lparr> initOnce := True \<rparr>, Panicked)
            | (r1, Returned e) \<Rightarrow> (r1\<lparr> initOnce := True, initErr := e \<rparr>, Returned e))
         else (r, Returned (initErr r)))
      else (r, Returned None))"

text \<open>
  Lines 169 to 203: the query in the width of the database (\<open>native_ip\<close>, lines 169 to
  173), the search and the decoding of the record found.
\<close>

definition native_ip :: "Reader \<Rightarrow> bytes \<Rightarrow> bytes" where
  "native_ip r ip = (if dbType r = IPv4 then To4 ip else To16 ip)"

definition Find_search :: "ext \<Rightarrow> Reader \<Rightarrow> bytes \<Rightarrow> (error + Range \<times> string) outcome" where
  "Find_search x r ip0 =
     (let ip = native_ip r ip0 in
      case searchHeader r ip of
        None \<Rightarrow> Panicked
      | Some (sptr, eptr) \<Rightarrow>
          if sptr = 0 then
            (if IP_Equal ip IPv4zero \<or> IP_Equal ip IPv6zero
             then Returned (Inr (\<lparr> Start = ip, End = ip \<rparr>, TempDataNotFound))
             else Returned (Inl ErrInvalidDatabase))
          else
            (case searchIndex r sptr eptr ip of
               None \<Rightarrow> Panicked
             | Some (sip, eip, dataPtr, dataLen) \<Rightarrow>
                 if dataPtr = 0 then
                   (if dbType r = IPv6 \<and> IP_Equal ip IPv4zero
                    then Returned (Inr (\<lparr> Start = To16 IPv4zero, End = To16 LastIPv4 \<rparr>,
                                        TempDataNotFound))
                    else Returned (Inl ErrInvalidDatabase))
                 else
                   (case subslice (data r) (slack r) (offset r + dataPtr) (offset r + dataPtr + dataLen) of
                      None \<Rightarrow> Panicked
                    | Some d \<Rightarrow>
                        (case ParseGeoInfo x (geo r) d of
                           Panicked \<Rightarrow> Panicked
                         | Returned (Inl e) \<Rightarrow> Returned (Inl e)
                         | Returned (Inr s) \<Rightarrow>
                             Returned (Inr (\<lparr> Start = sip, End = eip \<rparr>, s))))))"

definition Find :: "ext \<Rightarrow> Reader \<Rightarrow> bytes \<Rightarrow> Reader \<times> (error + Range \<times> string) outcome" where
  "Find x r ip =
     (case Find_init x r of
        (r1, Panicked) \<Rightarrow> (r1, Panicked)
      | (r1, Returned (Some e)) \<Rightarrow> (r1, Returned (Inl e))
      | (r1, Returned None) \<Rightarrow> (r1, Find_search x r1 ip))"

section \<open>Stand-ins for the collaborators and small databases\<close>

text \<open>
  The theorems below hold for every value of the parameters. To run the model on concrete
  file images the parameters are given simple stand-ins: a key is accepted when all its
  characters are of the base64 alphabet (its bytes are then the key's own characters),
  the cipher keeps the first eight bytes of its input (the bytes after them are the rest
  of its slice up to the capacity), the XOR helper repeats the key,
  and the decoder reads the one-byte msgpack forms (positive fixint, fixstr, fixarray)
  and the four-byte unsigned integer.
\<close>

definition stub_base64 :: "string \<Rightarrow> error + bytes" where
  "stub_base64 k =
     (if list_all (\<lambda>c. c \<in> set ''ABCDEFGHIJKLMNOPQRSTUVWXYZabcdefghijklmnopqrstuvwxyz0123456789+/='') k
      then Inr (map (\<lambda>c. of_nat (of_char c)) k)
      else Inl (CorruptInputError 0))"

definition stub_aes :: "bytes \<Rightarrow> bytes \<Rightarrow> error + (bytes \<times> bytes)" where
  "stub_aes enc k =
     (if length enc < 8 then Inl CipherError else Inr (take 8 enc, drop 8 enc))"

definition stub_xor :: "bytes \<Rightarrow> bytes \<Rightarrow> bytes" where
  "stub_xor d k =
     (if k = [] then d else map (\<lambda>i. d ! i XOR k ! (i mod length k)) [0..<length d])"

fun stub_int64 :: "bytes \<Rightarrow> error + (int \<times> bytes)" where
  "stub_int64 [] = Inl MsgpackError"
| "stub_int64 (b # bs) =
     (if b < 0x80 then Inr (uint b, bs)
      else if b = 0xce \<and> 4 \<le> length bs
      then Inr (uint (le32 (bs ! 3) (bs ! 2) (bs ! 1) (bs ! 0)), drop 4 bs)
      else Inl MsgpackError)"

fun stub_string :: "bytes \<Rightarrow> error + (string \<times> bytes)" where
  "stub_string [] = Inl MsgpackError"
| "stub_string (b # bs) =
     (if b AND 0xe0 = 0xa0 \<and> unat (b AND 0x1f) \<le> length bs
      then Inr (map (\<lambda>c. char_of (unat c)) (take (unat (b AND 0x1f)) bs),
                drop (unat (b AND 0x1f)) bs)
      else Inl MsgpackError)"

fun stub_array_len :: "bytes \<Rightarrow> error + (int \<times> bytes)" where
  "stub_array_len [] = Inl MsgpackError"
| "stub_array_len (b # bs) =
     (if b AND 0xf0 = 0x90 then Inr (uint (b AND 0x0f), bs) else Inl MsgpackError)"

definition stub :: ext where
  "stub = \<lparr> base64_DecodeString = stub_base64, AesECBDecrypt = stub_aes,
            XorDecrypt = stub_xor, DecodeInt64 = stub_int64, DecodeString = stub_string,
            DecodeArrayLen = stub_array_len \<rparr>"

text \<open>
  An IPv4 database. Hyper header, sixteen bytes of metadata (random padding of length 0),
  then from offset 28: the super part (17 bytes), one header block for 1.0.0.0 pointing
  to 37, two index blocks (1.0.0.0 to 1.0.0.255 and 1.0.1.0 to 1.0.1.255) at 37 and 50,
  the column selection 0 at 63, and the payloads \<^verbatim>\<open>(0, "CN")\<close> at 67 and \<^verbatim>\<open>(0, "US")\<close> at 71.
\<close>

definition image4 :: bytes where
  "image4 =
     [0x0c, 0x0b, 0x35, 0x01,  0x07, 0, 0, 0,  16, 0, 0, 0,
      0x10, 0xd5, 0x73, 0x00,  0, 0, 0, 0,  0, 0, 0, 0,  0, 0, 0, 0,
      0,  75, 0, 0, 0,  37, 0, 0, 0,  20, 0, 0, 0,  50, 0, 0, 0,
      1, 0, 0, 0,  0, 0, 0, 0,  0, 0, 0, 0,  0, 0, 0, 0,  37, 0, 0, 0,
      1, 0, 0, 0,  1, 0, 0, 255,  67, 0, 0, 0,  4,
      1, 0, 1, 0,  1, 0, 1, 255,  71, 0, 0, 0,  4,
      0, 0, 0, 0,
      0x00, 0xa2, 0x43, 0x4e,
      0x00, 0xa2, 0x55, 0x53]"

text \<open>
  An IPv6 database of the same layout: one header block for \<^verbatim>\<open>::\<close> pointing to 37, one
  index block (2000:: to 2000::ffff) at 37, the column selection 0 at 74 and the payload
  \<^verbatim>\<open>(0, "EU")\<close> at 78.
\<close>

definition image6 :: bytes where
  "image6 =
     [0x0c, 0x0b, 0x35, 0x01,  0x07, 0, 0, 0,  16, 0, 0, 0,
      0x10, 0xd5, 0x73, 0x00,  0, 0, 0, 0,  0, 0, 0, 0,  0, 0, 0, 0,
      1,  82, 0, 0, 0,  37, 0, 0, 0,  20, 0, 0, 0,  37, 0, 0, 0,
      0, 0, 0, 0,  0, 0, 0, 0,  0, 0, 0, 0,  0, 0, 0, 0,  37, 0, 0, 0,
      0x20, 0, 0, 0,  0, 0, 0, 0,  0, 0, 0, 0,  0, 0, 0, 0,
      0x20, 0, 0, 0,  0, 0, 0, 0,  0, 0, 0, 0,  0, 0, 0xff, 0xff,
      78, 0, 0, 0,  4,
      0, 0, 0, 0,
      0x00, 0xa2, 0x45, 0x55]"

text \<open>
  The readers that \<^verbatim>\<open>NewReader\<close> returns for the images when they are read into a buffer of
  capacity 512 that holds zeros after the file's bytes (\<open>new4_NewReader\<close>,
  \<open>new6_NewReader\<close> and \<open>new_cut_NewReader\<close> below); a caller then sets the key.
\<close>

definition new4 :: Reader where
  "new4 =
     \<lparr> Key = [], data = image4, slack = replicate 409 0,
       version = 20253452, clientID = 7,
       encryptedDataLength = 16, decClientID = 0, decExpirationDate = 0,
       decRandomBytesLength = 0, dbType = 0, fileSize = 0, firstIndexPtr = 0,
       totalHeaderBlockSize = 0, lastIndexPtr = 0, inited = False, initOnce = False,
       initErr = None, offset = 0, ipLength = 0, indexBlockLength = 0,
       geo = \<lparr> gdata = [], columnSelection = 0 \<rparr>,
       headerIPs = [], headerPtrs = [], headerLen = 0 \<rparr>"

definition new6 :: Reader where
  "new6 =
     \<lparr> Key = [], data = image6, slack = replicate 402 0,
       version = 20253452, clientID = 7,
       encryptedDataLength = 16, decClientID = 0, decExpirationDate = 0,
       decRandomBytesLength = 0, dbType = 0, fileSize = 0, firstIndexPtr = 0,
       totalHeaderBlockSize = 0, lastIndexPtr = 0, inited = False, initOnce = False,
       initErr = None, offset = 0, ipLength = 0, indexBlockLength = 0,
       geo = \<lparr> gdata = [], columnSelection = 0 \<rparr>,
       headerIPs = [], headerPtrs = [], headerLen = 0 \<rparr>"

text \<open>
  Both readers after \<^verbatim>\<open>Init\<close> with the key \<^verbatim>\<open>a2V5\<close> (\<open>reader4_Init\<close> and \<open>reader6_Init\<close>
  below).
\<close>

definition reader4 :: Reader where
  "reader4 =
     \<lparr> Key = ''a2V5'', data = image4, slack = replicate 409 0,
       version = 20253452, clientID = 7,
       encryptedDataLength = 16, decClientID = 7, decExpirationDate = 251152,
       decRandomBytesLength = 0, dbType = 0, fileSize = 75, firstIndexPtr = 37,
       totalHeaderBlockSize = 20, lastIndexPtr = 50, inited = True, initOnce = False,
       initErr = None, offset = 28, ipLength = 4, indexBlockLength = 13,
       geo = \<lparr> gdata = [], columnSelection = 0 \<rparr>,
       headerIPs = [[1, 0, 0, 0, 0, 0, 0, 0, 0, 0, 0, 0, 0, 0, 0, 0]],
       headerPtrs = [37], headerLen = 1 \<rparr>"

definition reader6 :: Reader where
  "reader6 =
     \<lparr> Key = ''a2V5'', data = image6, slack = replicate 402 0,
       version = 20253452, clientID = 7,
       encryptedDataLength = 16, decClientID = 7, decExpirationDate = 251152,
       decRandomBytesLength = 0, dbType = 1, fileSize = 82, firstIndexPtr = 37,
       totalHeaderBlockSize = 20, lastIndexPtr = 37, inited = True, initOnce = False,
       initErr = None, offset = 28, ipLength = 16, indexBlockLength = 37,
       geo = \<lparr> gdata = [], columnSelection = 0 \<rparr>,
       headerIPs = [[0, 0, 0, 0, 0, 0, 0, 0, 0, 0, 0, 0, 0, 0, 0, 0]],
       headerPtrs = [37], headerLen = 1 \<rparr>"

text \<open>
  A column selection with the bits 1 and 2 set and a dictionary that holds, at 0, the
  array \<^verbatim>\<open>["CN", "", "ZJ"]\<close>.
\<close>

definition geo1 :: Geo where
  "geo1 = \<lparr> gdata = [0x93, 0xa2, 0x43, 0x4e, 0xa0, 0xa2, 0x5a, 0x4a], columnSelection = 6 \<rparr>"

text \<open>
  A file that ends after the metadata, the metadata giving 4294967295 as the length of the
  random bytes: the super part would start at 4294967323, the image has 28 bytes and the
  buffer it is read into a capacity of 512.
\<close>

definition image_cut :: bytes where
  "image_cut =
     [0x0c, 0x0b, 0x35, 0x01,  0x07, 0, 0, 0,  16, 0, 0, 0,
      0x10, 0xd5, 0x73, 0x00,  0xff, 0xff, 0xff, 0xff,  0, 0, 0, 0,  0, 0, 0, 0]"

definition new_cut :: Reader where
  "new_cut =
     \<lparr> Key = [], data = image_cut, slack = replicate 484 0,
       version = 20253452, clientID = 7,
       encryptedDataLength = 16, decClientID = 0, decExpirationDate = 0,
       decRandomBytesLength = 0, dbType = 0, fileSize = 0, firstIndexPtr = 0,
       totalHeaderBlockSize = 0, lastIndexPtr = 0, inited = False, initOnce = False,
       initErr = None, offset = 0, ipLength = 0, indexBlockLength = 0,
       geo = \<lparr> gdata = [], columnSelection = 0 \<rparr>,
       headerIPs = [], headerPtrs = [], headerLen = 0 \<rparr>"

text \<open>
  A database whose type byte is 2: bit 0 is clear, so its addresses are stored in four
  bytes, and the byte is not 0. One header block for 0.0.0.0 pointing to 37, two index
  blocks (0.0.0.0 to 0.255.255.255 and 1.0.0.0 to 1.255.255.255) at 37 and 50, the column
  selection 0 at 63, the payloads \<^verbatim>\<open>(0, "CN")\<close> at 67 and \<^verbatim>\<open>(0, "US")\<close> at 71.
\<close>

definition image2 :: bytes where
  "image2 =
     [0x0c, 0x0b, 0x35, 0x01,  0x07, 0, 0, 0,  16, 0, 0, 0,
      0x10, 0xd5, 0x73, 0x00,  0, 0, 0, 0,  0, 0, 0, 0,  0, 0, 0, 0,
      2,  75, 0, 0, 0,  37, 0, 0, 0,  20, 0, 0, 0,  50, 0, 0, 0,
      0, 0, 0, 0,  0, 0, 0, 0,  0, 0, 0, 0,  0, 0, 0, 0,  37, 0, 0, 0,
      0, 0, 0, 0,  0, 255, 255, 255,  67, 0, 0, 0,  4,
      1, 0, 0, 0,  1, 255, 255, 255,  71, 0, 0, 0,  4,
      0, 0, 0, 0,
      0x00, 0xa2, 0x43, 0x4e,
      0x00, 0xa2, 0x55, 0x53]"

definition new2 :: Reader where
  "new2 =
     \<lparr> Key = [], data = image2, slack = replicate 409 0,
       version = 20253452, clientID = 7,
       encryptedDataLength = 16, decClientID = 0, decExpirationDate = 0,
       decRandomBytesLength = 0, dbType = 0, fileSize = 0, firstIndexPtr = 0,
       totalHeaderBlockSize = 0, lastIndexPtr = 0, inited = False, initOnce = False,
       initErr = None, offset = 0, ipLength = 0, indexBlockLength = 0,
       geo = \<lparr> gdata = [], columnSelection = 0 \<rparr>,
       headerIPs = [], headerPtrs = [], headerLen = 0 \<rparr>"

definition reader2 :: Reader where
  "reader2 =
     \<lparr> Key = ''a2V5'', data = image2, slack = replicate 409 0,
       version = 20253452, clientID = 7,
       encryptedDataLength = 16, decClientID = 7, decExpirationDate = 251152,
       decRandomBytesLength = 0, dbType = 2, fileSize = 75, firstIndexPtr = 37,
       totalHeaderBlockSize = 20, lastIndexPtr = 50, inited = True, initOnce = False,
       initErr = None, offset = 28, ipLength = 4, indexBlockLength = 13,
       geo = \<lparr> gdata = [], columnSelection = 0 \<rparr>,
       headerIPs = [[0, 0, 0, 0, 0, 0, 0, 0, 0, 0, 0, 0, 0, 0, 0, 0]],
       headerPtrs = [37], headerLen = 1 \<rparr>"

section \<open>Notions used to state the properties\<close>

text \<open>A caller that issues the queries of a list one after the other on the same reader.\<close>

fun Find_all ::
    "ext \<Rightarrow> Reader \<Rightarrow> bytes list \<Rightarrow> Reader \<times> (error + Range \<times> string) outcome list" where
  "Find_all x r [] = (r, [])"
| "Find_all x r (ip # ips) =
     (case Find x r ip of
        (r1, res) \<Rightarrow> (case Find_all x r1 ips of (r2, ress) \<Rightarrow> (r2, res # ress)))"

text \<open>
  The two branches of \<^verbatim>\<open>Find\<close> that make up a result (lines 179 and 188), as a condition
  on the reader and the query in native width.
\<close>

definition synthesized :: "Reader \<Rightarrow> bytes \<Rightarrow> bool" where
  "synthesized r ip =
     (case searchHeader r ip of
        None \<Rightarrow> False
      | Some (sptr, eptr) \<Rightarrow>
          if sptr = 0 then IP_Equal ip IPv4zero \<or> IP_Equal ip IPv6zero
          else
            (case searchIndex r sptr eptr ip of
               None \<Rightarrow> False
             | Some (sip, eip, dataPtr, dataLen) \<Rightarrow>
                 dataPtr = 0 \<and> dbType r = IPv6 \<and> IP_Equal ip IPv4zero))"

text \<open>
  The text of the selected columns as the specification words it: over the positions
  \<open>i\<close> of the array whose bit \<open>i + 1\<close> of the column selection is set, the string at \<open>i\<close>
  (\<^verbatim>\<open>null\<close> for the empty string) followed by a TAB.
\<close>

definition projected :: "int \<Rightarrow> string list \<Rightarrow> string" where
  "projected cs vs =
     concat (map (\<lambda>i. (if vs ! i = [] then ''null'' else vs ! i) @ [CHR 0x09])
               (filter (\<lambda>i. bit cs (i + 1)) [0..<length vs]))"

text \<open>A decoder from which the strings of a list are read one after the other.\<close>

fun reads_strings :: "ext \<Rightarrow> bytes \<Rightarrow> string list \<Rightarrow> bool" where
  "reads_strings x decoder [] = True"
| "reads_strings x decoder (v # vs) =
     (case DecodeString x decoder of
        Inl e \<Rightarrow> False
      | Inr (v', decoder') \<Rightarrow> v' = v \<and> reads_strings x decoder' vs)"

section \<open>Properties\<close>

subsection \<open>Facts about the helpers\<close>

lemma Find_inited: "inited r \<Longrightarrow> Find x r ip = (r, Find_search x r ip)"
  by (simp add: Find_def Find_init_def)

lemma IPv4zero_parts:
  "length IPv4zero = 16" "take 12 IPv4zero = v4InV6Prefix" "drop 12 IPv4zero = [0, 0, 0, 0]"
  by (simp_all add: IPv4zero_def net_IPv4_def v4InV6Prefix_def)

lemma IPv6zero_bytes: "IPv6zero = [0, 0, 0, 0, 0, 0, 0, 0, 0, 0, 0, 0, 0, 0, 0, 0]"
  by (simp add: IPv6zero_def numeral_eq_Suc)

lemma IPv6zero_parts:
  "length IPv6zero = 16" "take 12 IPv6zero \<noteq> v4InV6Prefix"
  by (simp_all add: IPv6zero_bytes v4InV6Prefix_def)

lemma IP_Equal_IPv4zero:
  "IP_Equal ip IPv4zero \<longleftrightarrow> ip = [0, 0, 0, 0] \<or> ip = IPv4zero"
proof -
  have "length ip \<noteq> 16 \<Longrightarrow> ip \<noteq> IPv4zero" "length ip \<noteq> 4 \<Longrightarrow> ip \<noteq> [0, 0, 0, 0]"
    using IPv4zero_parts(1) by auto
  then show ?thesis
    unfolding IP_Equal_def by (auto simp: IPv4zero_parts)
qed

lemma IP_Equal_IPv6zero: "IP_Equal ip IPv6zero \<longleftrightarrow> ip = IPv6zero"
proof -
  have "length ip \<noteq> 16 \<Longrightarrow> ip \<noteq> IPv6zero"
    using IPv6zero_parts(1) by auto
  then show ?thesis
    unfolding IP_Equal_def by (auto simp: IPv6zero_parts)
qed

lemma mask20: "(0xFFFFF :: 32 word) = mask 20"
  by (simp add: mask_eq_exp_minus_1)

lemma le32_plus:
  "le32 b0 b1 b2 b3 = ucast b0 + push_bit 8 (ucast b1) + push_bit 16 (ucast b2) + push_bit 24 (ucast b3)"
proof -
  have lt: "\<And>(b::byte) n. bit b n \<Longrightarrow> n < 8"
    using bit_imp_le_length by fastforce
  have 1: "(ucast b0 :: 32 word) + push_bit 8 (ucast b1) = ucast b0 OR push_bit 8 (ucast b1)"
    by (rule disjunctive_add_eq_or, rule bit_eqI) (auto simp: bit_simps dest: lt)
  have 2: "(ucast b0 OR push_bit 8 (ucast b1) :: 32 word) + push_bit 16 (ucast b2)
         = ucast b0 OR push_bit 8 (ucast b1) OR push_bit 16 (ucast b2)"
    by (subst or.assoc [symmetric], rule disjunctive_add_eq_or, rule bit_eqI) (auto simp: bit_simps dest!: lt)
  have 3: "(ucast b0 OR push_bit 8 (ucast b1) OR push_bit 16 (ucast b2) :: 32 word) + push_bit 24 (ucast b3)
         = (ucast b0 OR push_bit 8 (ucast b1) OR push_bit 16 (ucast b2)) OR push_bit 24 (ucast b3)"
    by (rule disjunctive_add_eq_or, rule bit_eqI) (auto simp: bit_simps dest!: lt)
  show ?thesis
    unfolding le32_def using 1 2 3 by (simp add: or.assoc)
qed

lemma le32_uint:
  "uint (le32 b0 b1 b2 b3) = uint b0 + 256 * uint b1 + 65536 * uint b2 + 16777216 * uint b3"
proof -
  have b: "\<And>b::byte. uint b < 256" "\<And>b::byte. 0 \<le> uint b"
    using uint_bounded [where 'a = 8] by auto
  have u: "\<And>b::byte. uint (ucast b :: 32 word) = uint b"
    by (simp add: uint_up_ucast is_up)
  show ?thesis
    unfolding le32_plus
    apply (simp add: uint_word_ariths push_bit_eq_mult u)
    using b[of b0] b[of b1] b[of b2] b[of b3]
    by (simp add: take_bit_eq_mod)
qed

lemma bytes_Compare_refl: "bytes_Compare a a = 0"
  by (induction a) auto

lemma Find_after_failure:
  assumes "\<not> inited r" and "initOnce r" and "initErr r = Some e"
  shows "Find x r ip = (r, Returned (Inl e))"
  using assms by (simp add: Find_def Find_init_def)

lemma Find_all_after_failure:
  assumes "\<not> inited r" and "initOnce r" and "initErr r = Some e"
  shows "Find_all x r ips = (r, replicate (length ips) (Returned (Inl e)))"
  by (induction ips) (simp_all add: Find_after_failure [OF assms])

lemma subslice_length: "subslice s sl lo hi = Some t \<Longrightarrow> int (length t) = hi - lo"
  by (auto simp: subslice_def split: if_splits)

lemma parseHeaderBlocks_loop_frame:
  "parseHeaderBlocks_loop r i idx = (r', res)
   \<Longrightarrow> r' = r\<lparr> headerIPs := headerIPs r', headerPtrs := headerPtrs r' \<rparr>"
proof (induction r i idx rule: parseHeaderBlocks_loop.induct)
  case (1 r i idx)
  show ?case
    using "1.prems" "1.IH"
    by (subst (asm) parseHeaderBlocks_loop.simps)
       (auto simp: Let_def split: if_splits option.splits)
qed

lemma parseHeaderBlocks_loop_entries:
  "parseHeaderBlocks_loop r i idx = (r', Some n) \<Longrightarrow> 0 \<le> idx
   \<Longrightarrow> idx \<le> int (length (headerIPs r))
   \<Longrightarrow> (\<forall>j<nat idx. length (headerIPs r ! j) = 16)
   \<Longrightarrow> 0 \<le> n \<and> n \<le> int (length (headerIPs r')) \<and> (\<forall>j<nat n. length (headerIPs r' ! j) = 16)"
proof (induction r i idx rule: parseHeaderBlocks_loop.induct)
  case (1 r i idx)
  show ?case
  proof (cases "i < totalHeaderBlockSize r")
    case False
    with "1.prems" show ?thesis
      by (subst (asm) parseHeaderBlocks_loop.simps) auto
  next
    case True
    show ?thesis
    proof (cases "Option.bind (subslice_from (data r) (offset r + SuperPartLength + i + 16)) Uint32")
      case None
      with True "1.prems" show ?thesis
        by (subst (asm) parseHeaderBlocks_loop.simps) auto
    next
      case (Some headerPtr)
      show ?thesis
      proof (cases "headerPtr = 0")
        case True
        with \<open>i < totalHeaderBlockSize r\<close> Some "1.prems" show ?thesis
          by (subst (asm) parseHeaderBlocks_loop.simps) auto
      next
        case False
        from "1.prems"(1) \<open>i < totalHeaderBlockSize r\<close> Some False
        obtain hip where
          hip: "subslice (data r) (slack r) (offset r + SuperPartLength + i) (offset r + SuperPartLength + i + 16) = Some hip"
          and ok: "idx < int (length (headerIPs r))" "idx < int (length (headerPtrs r))"
          and rec: "parseHeaderBlocks_loop
             (r\<lparr> headerIPs := (headerIPs r)[nat idx := hip],
                 headerPtrs := (headerPtrs r)[nat idx := uint headerPtr] \<rparr>)
             (i + HeaderBlockLength) (idx + 1) = (r', Some n)"
          by (subst (asm) parseHeaderBlocks_loop.simps)
             (auto simp: Let_def split: if_splits option.splits)
        have len: "length hip = 16"
          using subslice_length [OF hip] by simp
        let ?r2 = "r\<lparr> headerIPs := (headerIPs r)[nat idx := hip],
                       headerPtrs := (headerPtrs r)[nat idx := uint headerPtr] \<rparr>"
        have pre: "\<forall>j<nat (idx + 1). length (headerIPs ?r2 ! j) = 16"
        proof (intro allI impI)
          fix j assume "j < nat (idx + 1)"
          then have "j < nat idx \<or> j = nat idx"
            using "1.prems"(2) by linarith
          then show "length (headerIPs ?r2 ! j) = 16"
            using "1.prems"(4) len ok "1.prems"(2)
            by (auto simp: nth_list_update)
        qed
        have r1eq: "r\<lparr> headerIPs := (headerIPs r)[nat idx := hip] \<rparr>\<lparr> headerPtrs :=
            (headerPtrs (r\<lparr> headerIPs := (headerIPs r)[nat idx := hip] \<rparr>))[nat idx := uint headerPtr] \<rparr> = ?r2"
          by simp
        show ?thesis
          using "1.IH" [OF \<open>i < totalHeaderBlockSize r\<close> Some False hip _ refl _ , unfolded r1eq, OF _ _ rec]
            "1.prems"(2) ok pre
          by simp
      qed
    qed
  qed
qed


lemma decryptHyperHeader_frame:
  "decryptHyperHeader x r = (r', res)
   \<Longrightarrow> r' = r\<lparr> decClientID := decClientID r', decExpirationDate := decExpirationDate r',
                decRandomBytesLength := decRandomBytesLength r', offset := offset r' \<rparr>"
  by (auto simp: decryptHyperHeader_def Let_def split: sum.splits option.splits)

lemma parseSuperPart_frame:
  "parseSuperPart r = (r', res)
   \<Longrightarrow> r' = r\<lparr> dbType := dbType r', fileSize := fileSize r', firstIndexPtr := firstIndexPtr r',
                totalHeaderBlockSize := totalHeaderBlockSize r', lastIndexPtr := lastIndexPtr r',
                ipLength := ipLength r', indexBlockLength := indexBlockLength r' \<rparr>"
  by (auto simp: parseSuperPart_def setupIPVersion_def split: option.splits)

lemma parseSuperPart_widths:
  "parseSuperPart r = (r', Returned None)
   \<Longrightarrow> ipLength r' = (if dbType r' AND IPv6 = 0 then 4 else 16)
     \<and> indexBlockLength r' = (if dbType r' AND IPv6 = 0 then 13 else 37)"
  by (auto simp: parseSuperPart_def setupIPVersion_def consts_defs split: option.splits if_splits)

lemma parseHeaderBlocks_frame:
  "parseHeaderBlocks r = (r', res)
   \<Longrightarrow> r' = r\<lparr> headerIPs := headerIPs r', headerPtrs := headerPtrs r', headerLen := headerLen r' \<rparr>"
  by (auto simp: parseHeaderBlocks_def Let_def split: if_splits prod.splits option.splits
      dest!: parseHeaderBlocks_loop_frame)

lemma parseHeaderBlocks_entries:
  assumes "parseHeaderBlocks r = (r', Returned None)"
  shows "0 \<le> headerLen r' \<and> headerLen r' \<le> int (length (headerIPs r'))
     \<and> (\<forall>j<nat (headerLen r'). length (headerIPs r' ! j) = 16)"
proof -
  let ?n = "go_div (totalHeaderBlockSize r) HeaderBlockLength"
  let ?r2 = "r\<lparr> headerIPs := replicate (nat ?n) [], headerPtrs := replicate (nat ?n) 0 \<rparr>"
  from assms obtain r3 idx where
    l: "parseHeaderBlocks_loop ?r2 0 0 = (r3, Some idx)" and r': "r' = r3\<lparr> headerLen := idx \<rparr>"
    by (auto simp: parseHeaderBlocks_def Let_def split: if_splits prod.splits option.splits)
  show ?thesis
    using parseHeaderBlocks_loop_entries [OF l] by (simp add: r')
qed

lemma loadGeoSetting_frame:
  "loadGeoSetting x r = (r', res) \<Longrightarrow> r' = r\<lparr> geo := geo r' \<rparr>"
  by (auto simp: loadGeoSetting_def Let_def split: sum.splits option.splits if_splits)



lemma Init_steps:
  assumes "Init x r = (r', res)"
  obtains (key) e where "validateKey x r = Some e" and "r' = r" and "res = Returned (Some e)"
  | (decrypt) "validateKey x r = None" and "decryptHyperHeader x r = (r', res)"
      and "res \<noteq> Returned None"
  | (super) r1 where "validateKey x r = None" and "decryptHyperHeader x r = (r1, Returned None)"
      and "parseSuperPart r1 = (r', res)" and "res \<noteq> Returned None"
  | (header) r1 r2 where "validateKey x r = None"
      and "decryptHyperHeader x r = (r1, Returned None)"
      and "parseSuperPart r1 = (r2, Returned None)" and "parseHeaderBlocks r2 = (r', res)"
      and "res \<noteq> Returned None"
  | (geo) r1 r2 r3 where "validateKey x r = None"
      and "decryptHyperHeader x r = (r1, Returned None)"
      and "parseSuperPart r1 = (r2, Returned None)"
      and "parseHeaderBlocks r2 = (r3, Returned None)"
      and "loadGeoSetting x r3 = (r', res)" and "res \<noteq> Returned None"
  | (ok) r1 r2 r3 r4 where "validateKey x r = None"
      and "decryptHyperHeader x r = (r1, Returned None)"
      and "parseSuperPart r1 = (r2, Returned None)"
      and "parseHeaderBlocks r2 = (r3, Returned None)"
      and "loadGeoSetting x r3 = (r4, Returned None)" and "r' = r4\<lparr> inited := True \<rparr>"
      and "res = Returned None"
proof (cases "validateKey x r")
  case (Some e)
  with assms have "r' = r" and "res = Returned (Some e)"
    by (simp_all add: Init_def)
  with key Some show ?thesis
    by blast
next
  case None
  obtain r1 o1 where s1: "decryptHyperHeader x r = (r1, o1)"
    by (cases "decryptHyperHeader x r") blast
  show ?thesis
  proof (cases "o1 = Returned None")
    case False
    with assms None s1 have "r' = r1" and "res = o1"
      by (auto simp: Init_def split: outcome.splits option.splits)
    with decrypt None s1 False show ?thesis
      by blast
  next
    case o1: True
    obtain r2 o2 where s2: "parseSuperPart r1 = (r2, o2)"
      by (cases "parseSuperPart r1") blast
    show ?thesis
    proof (cases "o2 = Returned None")
      case False
      with assms None s1 o1 s2 have "r' = r2" and "res = o2"
        by (auto simp: Init_def split: outcome.splits option.splits)
      with super None s1 o1 s2 False show ?thesis
        by blast
    next
      case o2: True
      obtain r3 o3 where s3: "parseHeaderBlocks r2 = (r3, o3)"
        by (cases "parseHeaderBlocks r2") blast
      show ?thesis
      proof (cases "o3 = Returned None")
        case False
        with assms None s1 o1 s2 o2 s3 have "r' = r3" and "res = o3"
          by (auto simp: Init_def split: outcome.splits option.splits)
        with header None s1 o1 s2 o2 s3 False show ?thesis
          by blast
      next
        case o3: True
        obtain r4 o4 where s4: "loadGeoSetting x r3 = (r4, o4)"
          by (cases "loadGeoSetting x r3") blast
        show ?thesis
        proof (cases "o4 = Returned None")
          case False
          with assms None s1 o1 s2 o2 s3 o3 s4 have "r' = r4" and "res = o4"
            by (auto simp: Init_def split: outcome.splits option.splits)
          with geo None s1 o1 s2 o2 s3 o3 s4 False show ?thesis
            by blast
        next
          case True
          with assms None s1 o1 s2 o2 s3 o3 s4 have "r' = r4\<lparr> inited := True \<rparr>"
            and "res = Returned None"
            by (auto simp: Init_def)
          with ok None s1 o1 s2 o2 s3 o3 s4 True show ?thesis
            by blast
        qed
      qed
    qed
  qed
qed


lemma Init_ok:
  assumes "Init x r = (r', Returned None)"
  shows "inited r'"
    and "ipLength r' = (if dbType r' AND IPv6 = 0 then 4 else 16)"
    and "indexBlockLength r' = (if dbType r' AND IPv6 = 0 then 13 else 37)"
    and "0 \<le> headerLen r'" and "headerLen r' \<le> int (length (headerIPs r'))"
    and "\<forall>j<nat (headerLen r'). length (headerIPs r' ! j) = 16"
proof -
  from assms obtain r1 r2 r3 r4 where
    s: "parseSuperPart r1 = (r2, Returned None)" and h: "parseHeaderBlocks r2 = (r3, Returned None)"
    and g: "loadGeoSetting x r3 = (r4, Returned None)" and r': "r' = r4\<lparr> inited := True \<rparr>"
    by (cases rule: Init_steps) auto
  note w = parseSuperPart_widths [OF s]
  note hf = parseHeaderBlocks_frame [OF h]
  note he = parseHeaderBlocks_entries [OF h]
  note gf = loadGeoSetting_frame [OF g]
  have eq3: "ipLength r3 = ipLength r2" "dbType r3 = dbType r2"
    "indexBlockLength r3 = indexBlockLength r2"
    by (subst hf, simp)+
  have eq4: "ipLength r4 = ipLength r3" "dbType r4 = dbType r3"
    "indexBlockLength r4 = indexBlockLength r3"
    "headerLen r4 = headerLen r3" "headerIPs r4 = headerIPs r3"
    by (subst gf, simp)+
  show "inited r'" by (simp add: r')
  show "ipLength r' = (if dbType r' AND IPv6 = 0 then 4 else 16)"
    using w by (simp add: r' eq3 eq4)
  show "indexBlockLength r' = (if dbType r' AND IPv6 = 0 then 13 else 37)"
    using w by (simp add: r' eq3 eq4)
  show "0 \<le> headerLen r'" "headerLen r' \<le> int (length (headerIPs r'))"
    "\<forall>j<nat (headerLen r'). length (headerIPs r' ! j) = 16"
    using he by (simp_all add: r' eq4)
qed

lemma Init_not_ok_inited:
  assumes "Init x r = (r', res)" and "res \<noteq> Returned None"
  shows "inited r' = inited r"
  using assms(1)
proof (cases rule: Init_steps)
  case (key e)
  then show ?thesis by simp
next
  case decrypt
  show ?thesis by (subst decryptHyperHeader_frame [OF decrypt(2)]) simp
next
  case (super r1)
  have "inited r' = inited r1" by (subst parseSuperPart_frame [OF super(3)]) simp
  also have "\<dots> = inited r" by (subst decryptHyperHeader_frame [OF super(2)]) simp
  finally show ?thesis .
next
  case (header r1 r2)
  have "inited r' = inited r2" by (subst parseHeaderBlocks_frame [OF header(4)]) simp
  also have "\<dots> = inited r1" by (subst parseSuperPart_frame [OF header(3)]) simp
  also have "\<dots> = inited r" by (subst decryptHyperHeader_frame [OF header(2)]) simp
  finally show ?thesis .
next
  case (geo r1 r2 r3)
  have "inited r' = inited r3" by (subst loadGeoSetting_frame [OF geo(5)]) simp
  also have "\<dots> = inited r2" by (subst parseHeaderBlocks_frame [OF geo(4)]) simp
  also have "\<dots> = inited r1" by (subst parseSuperPart_frame [OF geo(3)]) simp
  also have "\<dots> = inited r" by (subst decryptHyperHeader_frame [OF geo(2)]) simp
  finally show ?thesis .
next
  case (ok r1 r2 r3 r4)
  with assms(2) show ?thesis by simp
qed

lemma bytes_Compare_Nil: "hip \<noteq> [] \<Longrightarrow> bytes_Compare [] hip = -1"
  by (cases hip) auto


lemma Find_frozen:
  assumes "Find x r q = (r', res)" and "res \<noteq> Panicked"
  shows "Find x r' ip = (r', snd (Find x r ip))"
proof (cases "inited r \<or> initOnce r")
  case True
  then have "fst (Find x r q) = r"
    by (auto simp: Find_def Find_init_def split: option.splits)
  with assms(1) have "r' = r" by simp
  then show ?thesis
    using True by (auto simp: Find_def Find_init_def split: option.splits)
next
  case False
  obtain r1 o1 where i: "Init x r = (r1, o1)"
    by (cases "Init x r") blast
  show ?thesis
  proof (cases o1)
    case Panicked
    with False i assms show ?thesis
      by (simp add: Find_def Find_init_def)
  next
    case (Returned e)
    show ?thesis
    proof (cases e)
      case None
      have "inited r1"
        using Init_ok(1) i Returned None by blast
      moreover have "r' = r1\<lparr> initOnce := True, initErr := None \<rparr>"
        using False i Returned None assms(1) by (simp add: Find_def Find_init_def)
      ultimately show ?thesis
        using False i Returned None by (simp add: Find_def Find_init_def)
    next
      case (Some err)
      have "inited r1 = inited r"
        using Init_not_ok_inited [OF i] Returned Some by simp
      moreover have "r' = r1\<lparr> initOnce := True, initErr := Some err \<rparr>"
        using False i Returned Some assms(1) by (simp add: Find_def Find_init_def)
      ultimately show ?thesis
        using False i Returned Some by (simp add: Find_def Find_init_def)
    qed
  qed
qed

lemma Find_all_frozen:
  "Find_all x r qs = (r1, outs) \<Longrightarrow> Panicked \<notin> set outs
   \<Longrightarrow> snd (Find x r1 ip) = snd (Find x r ip)"
proof (induction qs arbitrary: r outs)
  case Nil
  then show ?case by simp
next
  case (Cons q qs)
  obtain r' res where f: "Find x r q = (r', res)"
    by (cases "Find x r q") blast
  obtain r2 ress where a: "Find_all x r' qs = (r2, ress)"
    by (cases "Find_all x r' qs") blast
  from Cons.prems f a have eq: "r1 = r2" "outs = res # ress"
    by simp_all
  then have np: "res \<noteq> Panicked" "Panicked \<notin> set ress"
    using Cons.prems(2) by auto
  have "snd (Find x r1 ip) = snd (Find x r' ip)"
    using Cons.IH [of r' ress] a np(2) eq by simp
  also have "\<dots> = snd (Find x r ip)"
    using Find_frozen [OF f np(1), of ip] by simp
  finally show ?case .
qed

lemma bytes_Compare_flip: "bytes_Compare a b \<ge> 0 \<longleftrightarrow> bytes_Compare b a \<le> 0"
  by (induction a b rule: bytes_Compare.induct) auto

lemma searchIndex_loop_found:
  "searchIndex_loop r sptr ip sip eip l h = Some (s, e, dp, dl) \<Longrightarrow> dp \<noteq> 0
   \<Longrightarrow> int (length sip) = ipLength r \<Longrightarrow> int (length eip) = ipLength r
   \<Longrightarrow> bytes_Compare ip s \<ge> 0 \<and> bytes_Compare ip e \<le> 0
       \<and> int (length s) = ipLength r \<and> int (length e) = ipLength r"
proof (induction r sptr ip sip eip l h rule: searchIndex_loop.induct)
  case (1 r sptr ip sip eip l h)
  show ?case
  proof (cases "l \<le> h")
    case False
    with "1.prems" show ?thesis
      by (subst (asm) searchIndex_loop.simps) simp
  next
    case True
    let ?p = "sptr + (l + h) div 2 * indexBlockLength r"
    from "1.prems"(1,2) True obtain s1 s2 where
      s1: "subslice (data r) (slack r) (offset r + ?p) (offset r + ?p + ipLength r) = Some s1"
      and s2: "subslice (data r) (slack r) (offset r + ?p + ipLength r) (offset r + ?p + 2 * ipLength r) = Some s2"
      by (subst (asm) searchIndex_loop.simps) (auto simp: Let_def split: option.splits)
    have len: "int (length s1) = ipLength r" "int (length s2) = ipLength r"
      using subslice_length [OF s1] subslice_length [OF s2] by simp_all
    show ?thesis
    proof (cases "bytes_Compare ip s1 \<ge> 0 \<and> bytes_Compare ip s2 \<le> 0")
      case hit: True
      with "1.prems"(1) True s1 s2 have "s = take (length sip) s1 @ drop (length s1) sip"
        and "e = take (length eip) s2 @ drop (length s2) eip"
        by (subst (asm) searchIndex_loop.simps, auto simp: Let_def split: option.splits)+
      with len "1.prems"(3,4) have "s = s1" "e = s2"
        by simp_all
      with hit len show ?thesis
        by simp
    next
      case miss: False
      show ?thesis
      proof (cases "bytes_Compare ip s1 < 0")
        case True
        with "1.prems"(1) \<open>l \<le> h\<close> s1 s2 miss
        have "searchIndex_loop r sptr ip sip eip l ((l + h) div 2 - 1) = Some (s, e, dp, dl)"
          by (subst (asm) searchIndex_loop.simps) (auto simp: Let_def)
        from "1.IH"(1) [OF \<open>l \<le> h\<close> refl refl s1 s2 refl refl _ True this "1.prems"(2,3,4)] miss
        show ?thesis by simp
      next
        case False
        with "1.prems"(1) \<open>l \<le> h\<close> s1 s2 miss
        have "searchIndex_loop r sptr ip sip eip ((l + h) div 2 + 1) h = Some (s, e, dp, dl)"
          by (subst (asm) searchIndex_loop.simps) (auto simp: Let_def)
        from "1.IH"(2) [OF \<open>l \<le> h\<close> refl refl s1 s2 refl refl _ False this "1.prems"(2,3,4)] miss
        show ?thesis by simp
      qed
    qed
  qed
qed


lemma searchIndex_found:
  assumes "searchIndex r sptr eptr ip = Some (s, e, dp, dl)" and "dp \<noteq> 0"
  shows "bytes_Compare ip s \<ge> 0 \<and> bytes_Compare ip e \<le> 0
       \<and> int (length s) = ipLength r \<and> int (length e) = ipLength r"
proof -
  from assms(1) have nn: "0 \<le> ipLength r"
    and l: "searchIndex_loop r sptr ip (replicate (nat (ipLength r)) 0)
              (replicate (nat (ipLength r)) 0) 0 (go_div (eptr - sptr) (indexBlockLength r))
            = Some (s, e, dp, dl)"
    by (auto simp: searchIndex_def split: if_splits)
  show ?thesis
    using searchIndex_loop_found [OF l assms(2)] nn by simp
qed

lemma Find_found:
  assumes "inited r" and "Find x r ip0 = (r', Returned (Inr (rng, txt)))"
    and "\<not> synthesized r (native_ip r ip0)"
  shows "bytes_Compare (native_ip r ip0) (Start rng) \<ge> 0"
    and "bytes_Compare (native_ip r ip0) (End rng) \<le> 0"
    and "int (length (Start rng)) = ipLength r" and "int (length (End rng)) = ipLength r"
proof -
  let ?ip = "native_ip r ip0"
  have fs: "Find_search x r ip0 = Returned (Inr (rng, txt))"
    using assms(2) unfolding Find_inited [OF assms(1)] by auto
  then obtain sptr eptr where sh: "searchHeader r ?ip = Some (sptr, eptr)"
    by (auto simp: Find_search_def Let_def split: option.splits)
  have nz: "sptr \<noteq> 0"
  proof
    assume "sptr = 0"
    with fs sh assms(3) show False
      by (auto simp: Find_search_def synthesized_def Let_def split: if_splits)
  qed
  from fs sh nz obtain sip eip dp dl where si: "searchIndex r sptr eptr ?ip = Some (sip, eip, dp, dl)"
    by (auto simp: Find_search_def Let_def split: option.splits)
  have dz: "dp \<noteq> 0"
  proof
    assume "dp = 0"
    with fs sh nz si assms(3) show False
      by (auto simp: Find_search_def synthesized_def Let_def split: if_splits)
  qed
  from fs sh nz si dz have rng: "Start rng = sip" "End rng = eip"
    by (auto simp: Find_search_def Let_def split: option.splits outcome.splits sum.splits)
  show "bytes_Compare (native_ip r ip0) (Start rng) \<ge> 0"
    and "bytes_Compare (native_ip r ip0) (End rng) \<le> 0"
    and "int (length (Start rng)) = ipLength r" and "int (length (End rng)) = ipLength r"
    using searchIndex_found [OF si dz] by (simp_all add: rng)
qed

lemma selected_bit: "(drop_bit n (a::int) AND 1 = 1) = bit a n"
  by (simp add: bit_iff_odd_drop_bit and_one_eq mod_2_eq_odd)

lemma ParseGeoInfo_loop_projected:
  "reads_strings x dec (drop i vs) \<Longrightarrow> i \<le> length vs
   \<Longrightarrow> ParseGeoInfo_loop x g (int (length vs)) (int i) dec info
       = Inr (info @ concat (map (\<lambda>j. (if vs ! j = [] then ''null'' else vs ! j) @ [CHR 0x09])
                              (filter (\<lambda>j. bit (columnSelection g) (j + 1)) [i..<length vs])))"
proof (induction "length vs - i" arbitrary: i dec info)
  case 0
  then have "i = length vs" by simp
  then show ?case
    by (subst ParseGeoInfo_loop.simps) simp
next
  case (Suc k)
  then have lt: "i < length vs" by simp
  then have dr: "drop i vs = vs ! i # drop (Suc i) vs"
    by (simp add: Cons_nth_drop_Suc)
  with Suc.prems(1) obtain dec' where
    d: "DecodeString x dec = Inr (vs ! i, dec')" and r: "reads_strings x dec' (drop (Suc i) vs)"
    by (auto split: sum.splits)
  have k: "k = length vs - Suc i" using Suc.hyps(2) by simp
  have ih: "ParseGeoInfo_loop x g (int (length vs)) (int (Suc i)) dec' info'
      = Inr (info' @ concat (map (\<lambda>j. (if vs ! j = [] then ''null'' else vs ! j) @ [CHR 0x09])
                              (filter (\<lambda>j. bit (columnSelection g) (j + 1)) [Suc i..<length vs])))"
    for info'
    using Suc.hyps(1) [OF k r] lt by simp
  have up: "[i..<length vs] = i # [Suc i..<length vs]"
    using lt by (simp add: upt_conv_Cons)
  have s: "int i + 1 = int (Suc i)" "nat (int i + 1) = Suc i"
    by simp_all
  show ?case
    using lt d
    by (subst ParseGeoInfo_loop.simps) (simp add: s selected_bit ih up del: of_nat_Suc)
qed

lemma bytes_Compare_swap: "bytes_Compare b a = - bytes_Compare a b"
  by (induction a b rule: bytes_Compare.induct) auto

lemma bytes_Compare_less_flip: "bytes_Compare a b < 0 \<longleftrightarrow> bytes_Compare b a > 0"
  using bytes_Compare_swap [of b a] by simp

lemma searchHeader_loop_match:
  assumes "\<forall>i j. 0 \<le> i \<and> i < j \<and> j < headerLen r
             \<longrightarrow> bytes_Compare (headerIPs r ! nat i) (headerIPs r ! nat j) < 0"
    and "headerLen r \<le> int (length (headerIPs r))"
    and "headerLen r \<le> int (length (headerPtrs r))"
    and "0 \<le> l" and "l \<le> m" and "m \<le> h" and "h < headerLen r"
  shows "\<exists>l' h'. l' \<le> m \<and> m \<le> h'
           \<and> searchHeader_loop r (headerIPs r ! nat m) l h
               = Some (l', h', headerPtrs r ! nat (if m > 0 then m - 1 else m), headerPtrs r ! nat m)"
  using assms(4-7)
proof (induction "nat (h - l)" arbitrary: l h rule: less_induct)
  case less
  let ?ip = "headerIPs r ! nat m"
  let ?mid = "(l + h) div 2"
  have mid: "l \<le> ?mid" "?mid \<le> h"
    using less.prems by simp_all
  then have ix: "index (headerIPs r) ?mid = Some (headerIPs r ! nat ?mid)"
    using less.prems assms(2) by (simp add: index_def)
  consider (lt) "?mid < m" | (gt) "m < ?mid" | (eq) "?mid = m"
    by linarith
  then show ?case
  proof cases
    case lt
    then have "bytes_Compare (headerIPs r ! nat ?mid) ?ip < 0"
      using assms(1) mid less.prems by simp
    then have c: "bytes_Compare ?ip (headerIPs r ! nat ?mid) > 0"
      by (simp add: bytes_Compare_less_flip)
    have "\<exists>l' h'. l' \<le> m \<and> m \<le> h'
           \<and> searchHeader_loop r ?ip (?mid + 1) h
               = Some (l', h', headerPtrs r ! nat (if m > 0 then m - 1 else m), headerPtrs r ! nat m)"
      using lt mid less.prems by (intro less.hyps) simp_all
    then show ?thesis
      using c ix mid by (subst searchHeader_loop.simps) (simp add: Let_def)
  next
    case gt
    then have c: "bytes_Compare ?ip (headerIPs r ! nat ?mid) < 0"
      using assms(1) mid less.prems by simp
    have "\<exists>l' h'. l' \<le> m \<and> m \<le> h'
           \<and> searchHeader_loop r ?ip l (?mid - 1)
               = Some (l', h', headerPtrs r ! nat (if m > 0 then m - 1 else m), headerPtrs r ! nat m)"
      using gt mid less.prems by (intro less.hyps) simp_all
    then show ?thesis
      using c ix mid by (subst searchHeader_loop.simps) (simp add: Let_def)
  next
    case eq
    have p: "index (headerPtrs r) m = Some (headerPtrs r ! nat m)"
      "m > 0 \<Longrightarrow> index (headerPtrs r) (m - 1) = Some (headerPtrs r ! nat (m - 1))"
      using less.prems assms(3) by (simp_all add: index_def)
    show ?thesis
      using eq ix p mid less.prems
      by (subst searchHeader_loop.simps) (auto simp: Let_def bytes_Compare_refl)
  qed
qed

lemma To4_length: "To4 ip = [] \<or> length (To4 ip) = 4"
  by (auto simp: To4_def)

lemma To16_length: "To16 ip = [] \<or> length (To16 ip) = 16"
  by (auto simp: To16_def net_IPv4_def v4InV6Prefix_def)

lemma To4_zero:
  "IP_Equal (To4 ip) IPv4zero \<or> IP_Equal (To4 ip) IPv6zero \<longleftrightarrow> To4 ip = [0, 0, 0, 0]"
proof -
  have "length (To4 ip) \<noteq> 16"
    using To4_length [of ip] by auto
  then have "To4 ip \<noteq> IPv4zero" "To4 ip \<noteq> IPv6zero"
    using IPv4zero_parts(1) IPv6zero_parts(1) by metis+
  then show ?thesis
    by (simp add: IP_Equal_IPv4zero IP_Equal_IPv6zero)
qed

text \<open>
  What \<^verbatim>\<open>Init\<close> does on a reader from \<^verbatim>\<open>NewReader\<close> when the decrypted length of the random
  bytes puts the end of the super part past the capacity of the image.
\<close>

lemma Init_beyond_capacity:
  assumes "NewReader d sl = Inr r0" and "k \<noteq> []" and "base64_DecodeString x k = Inr keyBytes"
    and "AesECBDecrypt x (take (nat (encryptedDataLength r0)) (drop 12 d)) keyBytes
           = Inr (decryptedData, spare)"
    and "decryptedData @ spare = b0 # b1 # b2 # b3 # b4 # b5 # b6 # b7 # rest"
    and "int (length d) + int (length sl)
           < 12 + encryptedDataLength r0 + uint (le32 b4 b5 b6 b7) + 17"
  shows "Init x (r0\<lparr> Key := k \<rparr>) =
           (r0\<lparr> Key := k, decClientID := drop_bit 20 (le32 b0 b1 b2 b3),
                decExpirationDate := le32 b0 b1 b2 b3 AND 0xFFFFF,
                decRandomBytesLength := uint (le32 b4 b5 b6 b7),
                offset := 12 + encryptedDataLength r0 + uint (le32 b4 b5 b6 b7) \<rparr>, Panicked)"
proof -
  let ?r = "r0\<lparr> Key := k \<rparr>"
  from assms(1) have r0: "data r0 = d" "slack r0 = sl"
    "0 \<le> encryptedDataLength r0" "encryptedDataLength r0 + 12 \<le> int (length d)"
    by (auto simp: NewReader_def Let_def HyperHeaderLength_def split: if_splits)
  have enc: "subslice (data ?r) (slack ?r) 12 (12 + encryptedDataLength ?r)
               = Some (take (nat (encryptedDataLength r0)) (drop 12 d))"
    using r0 by (simp add: subslice_def)
  have v: "validateKey x ?r = None"
    using assms(2,3) by (simp add: validateKey_def)
  have len: "8 \<le> int (length decryptedData) + int (length spare)"
    using arg_cong [OF assms(5), of length] by simp
  have s1: "Option.bind (subslice decryptedData spare 0 4) Uint32 = Some (le32 b0 b1 b2 b3)"
    and s2: "Option.bind (subslice decryptedData spare 4 8) Uint32 = Some (le32 b4 b5 b6 b7)"
    using len by (simp_all add: subslice_def assms(5))
  let ?r1 = "?r\<lparr> decClientID := drop_bit 20 (le32 b0 b1 b2 b3),
          decExpirationDate := le32 b0 b1 b2 b3 AND 0xFFFFF,
          decRandomBytesLength := uint (le32 b4 b5 b6 b7),
          offset := 12 + encryptedDataLength r0 + uint (le32 b4 b5 b6 b7) \<rparr>"
  have dh: "decryptHyperHeader x ?r = (?r1, Returned None)"
    using assms(3,4) enc s1 s2
    by (simp add: decryptHyperHeader_def HyperHeaderLength_def Let_def)
  have ps: "parseSuperPart ?r1 = (?r1, Panicked)"
    using assms(6) r0 by (simp add: parseSuperPart_def subslice_def SuperPartLength_def)
  show ?thesis
    by (simp add: Init_def v dh ps)
qed

lemma new4_NewReader: "NewReader image4 (replicate 409 0) = Inr new4"
  by code_simp

lemma new6_NewReader: "NewReader image6 (replicate 402 0) = Inr new6"
  by code_simp

lemma new_cut_NewReader: "NewReader image_cut (replicate 484 0) = Inr new_cut"
  by code_simp

lemma new2_NewReader: "NewReader image2 (replicate 409 0) = Inr new2"
  by code_simp

lemma reader2_Init: "Init stub (new2\<lparr> Key := ''a2V5'' \<rparr>) = (reader2, Returned None)"
  by code_simp


lemma reader6_Init: "Init stub (new6\<lparr> Key := ''a2V5'' \<rparr>) = (reader6, Returned None)"
  by code_simp

subsection \<open>The queries below the first header block\<close>

text \<open>
  C3. On an initialised reader, when \<^verbatim>\<open>searchHeader\<close> returns \<^verbatim>\<open>sptr == 0\<close> for the query
  in native width: if the query is the zero address (0.0.0.0 in four bytes or as the
  IPv4-mapped sixteen bytes, or \<^verbatim>\<open>::\<close>), \<^verbatim>\<open>Find\<close> returns the range from the query to the query
  with the text \<^verbatim>\<open>DataNotFound\<close> and no error; for every other query it returns
  \<^verbatim>\<open>ErrInvalidDatabase\<close>.
\<close>

theorem Find_before_coverage:
  assumes "inited r" and "searchHeader r (native_ip r ip0) = Some (0, eptr)"
  shows "Find x r ip0 =
           (r, if native_ip r ip0 = [0, 0, 0, 0] \<or> native_ip r ip0 = IPv4zero
                    \<or> native_ip r ip0 = IPv6zero
               then Returned (Inr (\<lparr> Start = native_ip r ip0, End = native_ip r ip0 \<rparr>,
                                   ''DataNotFound''))
               else Returned (Inl ErrInvalidDatabase))"
  using assms
  by (simp add: Find_inited Find_search_def IP_Equal_IPv4zero IP_Equal_IPv6zero
      TempDataNotFound_def Let_def)

theorem Find_before_coverage_witness:
  "inited reader4
   \<and> searchHeader reader4 (native_ip reader4 [0, 0, 0, 0]) = Some (0, 0)
   \<and> Find stub reader4 [0, 0, 0, 0] =
       (reader4, Returned (Inr (\<lparr> Start = [0, 0, 0, 0], End = [0, 0, 0, 0] \<rparr>, ''DataNotFound'')))
   \<and> searchHeader reader4 (native_ip reader4 [0, 0, 0, 1]) = Some (0, 0)
   \<and> Find stub reader4 [0, 0, 0, 1] = (reader4, Returned (Inl ErrInvalidDatabase))"
proof -
  have i: "inited reader4"
    by code_simp
  have n0: "native_ip reader4 [0, 0, 0, 0] = [0, 0, 0, 0]"
    and n1: "native_ip reader4 [0, 0, 0, 1] = [0, 0, 0, 1]"
    by code_simp+
  have s0: "searchHeader reader4 (native_ip reader4 [0, 0, 0, 0]) = Some (0, 0)"
    and s1: "searchHeader reader4 (native_ip reader4 [0, 0, 0, 1]) = Some (0, 0)"
    by code_simp+
  have z: "[0, 0, 0, 1] \<noteq> IPv4zero" "[0, 0, 0, 1] \<noteq> IPv6zero"
    by (simp_all add: IPv4zero_def net_IPv4_def v4InV6Prefix_def IPv6zero_bytes)
  show ?thesis
    using Find_before_coverage [OF i s0, of stub] Find_before_coverage [OF i s1, of stub]
      i s0 s1 z
    by (simp add: n0 n1)
qed

subsection \<open>The miss in the index blocks\<close>




subsection \<open>Key errors\<close>

text \<open>
  C5. On a reader that has not been initialised, \<^verbatim>\<open>Find\<close> returns \<^verbatim>\<open>ErrKeyRequired\<close> when
  the key is empty, and the error of the base64 decoder when the key is not empty and
  does not decode. In both cases every later \<^verbatim>\<open>Find\<close> on that reader returns the same
  error and leaves the reader as it is, whatever the query, the collaborators and the
  key set in between: \<^verbatim>\<open>Init\<close> is not run again.
\<close>

theorem Find_key_errors:
  assumes "\<not> inited r" and "\<not> initOnce r"
    and "Key r = [] \<and> e = ErrKeyRequired
         \<or> Key r \<noteq> [] \<and> base64_DecodeString x (Key r) = Inl e"
  shows "snd (Find x r ip) = Returned (Inl e)
     \<and> Find x' ((fst (Find x r ip))\<lparr> Key := k \<rparr>) ip'
         = ((fst (Find x r ip))\<lparr> Key := k \<rparr>, Returned (Inl e))
     \<and> Find_all x' (fst (Find x r ip)) ips
         = (fst (Find x r ip), replicate (length ips) (Returned (Inl e)))"
proof -
  have i: "Init x r = (r, Returned (Some e))"
    using assms(3) by (auto simp: Init_def validateKey_def)
  have f: "Find x r ip = (r\<lparr> initOnce := True, initErr := Some e \<rparr>, Returned (Inl e))"
    using assms(1,2) by (simp add: Find_def Find_init_def i)
  show ?thesis
    unfolding f using assms(1)
    by (simp add: Find_after_failure Find_all_after_failure)
qed

theorem Find_key_errors_witness:
  "\<not> inited new4 \<and> \<not> initOnce new4
   \<and> Key new4 = []
   \<and> snd (Find stub new4 [1, 0, 0, 5]) = Returned (Inl ErrKeyRequired)
   \<and> Find stub ((fst (Find stub new4 [1, 0, 0, 5]))\<lparr> Key := ''a2V5'' \<rparr>)
        [1, 0, 0, 5]
       = ((fst (Find stub new4 [1, 0, 0, 5]))\<lparr> Key := ''a2V5'' \<rparr>,
          Returned (Inl ErrKeyRequired))
   \<and> \<not> inited (new4\<lparr> Key := ''a2V5!'' \<rparr>) \<and> \<not> initOnce (new4\<lparr> Key := ''a2V5!'' \<rparr>)
   \<and> base64_DecodeString stub (Key (new4\<lparr> Key := ''a2V5!'' \<rparr>)) = Inl (CorruptInputError 0)
   \<and> snd (Find stub (new4\<lparr> Key := ''a2V5!'' \<rparr>) [1, 0, 0, 5])
       = Returned (Inl (CorruptInputError 0))
   \<and> snd (Find_all stub (fst (Find stub (new4\<lparr> Key := ''a2V5!'' \<rparr>) [1, 0, 0, 5]))
             [[1, 0, 0, 5], [1, 0, 1, 5]])
       = [Returned (Inl (CorruptInputError 0)), Returned (Inl (CorruptInputError 0))]"
proof -
  have a: "\<not> inited new4" "\<not> initOnce new4"
    "Key new4 = []"
    by code_simp+
  have b: "\<not> inited (new4\<lparr> Key := ''a2V5!'' \<rparr>)"
    "\<not> initOnce (new4\<lparr> Key := ''a2V5!'' \<rparr>)"
    "Key (new4\<lparr> Key := ''a2V5!'' \<rparr>) \<noteq> []"
    "base64_DecodeString stub (Key (new4\<lparr> Key := ''a2V5!'' \<rparr>)) = Inl (CorruptInputError 0)"
    by code_simp+
  show ?thesis
    using a b
      Find_key_errors [of "new4" ErrKeyRequired stub "[1, 0, 0, 5]" stub
        "''a2V5''" "[1, 0, 0, 5]" "[]"]
      Find_key_errors [of "(new4\<lparr> Key := ''a2V5!'' \<rparr>)" "CorruptInputError 0" stub
        "[1, 0, 0, 5]" stub "''a2V5!''" "[1, 0, 0, 5]" "[[1, 0, 0, 5], [1, 0, 1, 5]]"]
    by simp
qed

subsection \<open>The header search at the first entry\<close>

text \<open>
  C6 (the behaviour of the code where it departs from the claim). With a single header
  block, the query equal to its start address leaves the loop of \<^verbatim>\<open>searchHeader\<close> by
  \<^verbatim>\<open>break\<close> at \<^verbatim>\<open>m = 0\<close> with \<^verbatim>\<open>l = 0\<close>, \<^verbatim>\<open>h = 0\<close> and both pointers set to the pointer
  of that block; the test \<^verbatim>\<open>l == 0 && h <= 0\<close> after the loop then makes \<^verbatim>\<open>searchHeader\<close>
  return \<^verbatim>\<open>(0, 0)\<close>.
\<close>

theorem searchHeader_sole_entry:
  assumes "headerLen r = 1" and "headerIPs r = hip # hips" and "headerPtrs r = p # ps"
  shows "searchHeader_loop r hip 0 0 = Some (0, 0, p, p) \<and> searchHeader r hip = Some (0, 0)"
proof -
  have l: "searchHeader_loop r hip 0 0 = Some (0, 0, p, p)"
    using assms by (simp add: searchHeader_loop.simps [of r hip 0 0] index_def bytes_Compare_refl)
  then show ?thesis
    using assms by (simp add: searchHeader_def)
qed

theorem searchHeader_sole_entry_witness:
  "headerLen reader6 = 1
   \<and> headerIPs reader6 = [[0, 0, 0, 0, 0, 0, 0, 0, 0, 0, 0, 0, 0, 0, 0, 0]]
   \<and> headerPtrs reader6 = [37]
   \<and> searchHeader_loop reader6 [0, 0, 0, 0, 0, 0, 0, 0, 0, 0, 0, 0, 0, 0, 0, 0] 0 0
       = Some (0, 0, 37, 37)
   \<and> searchHeader reader6 [0, 0, 0, 0, 0, 0, 0, 0, 0, 0, 0, 0, 0, 0, 0, 0] = Some (0, 0)"
proof -
  have a: "headerLen reader6 = 1"
    and b: "headerIPs reader6 = [[0, 0, 0, 0, 0, 0, 0, 0, 0, 0, 0, 0, 0, 0, 0, 0]]"
    and c: "headerPtrs reader6 = [37]"
    by code_simp+
  show ?thesis
    using searchHeader_sole_entry [OF a b c] a b c by simp
qed

text \<open>
  At the positions after the first the search returns the two pointers the claim names:
  for start addresses in strictly increasing order and a query equal to the one at a
  position \<open>m \<ge> 1\<close>, \<^verbatim>\<open>searchHeader\<close> returns the pointers at \<open>m - 1\<close> and at \<open>m\<close>.
\<close>

lemma searchHeader_match_after_first:
  assumes "\<forall>i j. 0 \<le> i \<and> i < j \<and> j < headerLen r
             \<longrightarrow> bytes_Compare (headerIPs r ! nat i) (headerIPs r ! nat j) < 0"
    and "headerLen r \<le> int (length (headerIPs r))"
    and "headerLen r \<le> int (length (headerPtrs r))"
    and "1 \<le> m" and "m < headerLen r"
  shows "searchHeader r (headerIPs r ! nat m) = Some (headerPtrs r ! nat (m - 1), headerPtrs r ! nat m)"
proof -
  obtain l' h' where b: "l' \<le> m" "m \<le> h'"
    and l: "searchHeader_loop r (headerIPs r ! nat m) 0 (headerLen r - 1)
              = Some (l', h', headerPtrs r ! nat (m - 1), headerPtrs r ! nat m)"
    using searchHeader_loop_match [OF assms(1-3), of 0 m "headerLen r - 1"] assms(4,5)
    by auto
  show ?thesis
    using b l assms(4,5) by (simp add: searchHeader_def)
qed

subsection \<open>The decrypted metadata\<close>

text \<open>
  C8. When the key decodes and the metadata decrypts to a slice of at least eight bytes
  (counted up to its capacity; the first eight are \<open>b0\<close> to \<open>b7\<close>),
  \<^verbatim>\<open>decryptHyperHeader\<close> returns no error; with \<open>w\<close> the little-endian 32-bit word of the
  first four bytes (\<open>le32_uint\<close>), the bits 0 to 19 of \<open>w\<close> are the expiration date and
  the bits 20 to 31 are the decrypted client id; the little-endian word of the next
  four bytes is the length of the random bytes; and the offset is 12 plus the length of
  the encrypted data plus the length of the random bytes.
\<close>

theorem decryptHyperHeader_fields:
  assumes "base64_DecodeString x (Key r) = Inr keyBytes"
    and "subslice (data r) (slack r) 12 (12 + encryptedDataLength r) = Some enc"
    and "AesECBDecrypt x enc keyBytes = Inr (decryptedData, spare)"
    and "decryptedData @ spare = b0 # b1 # b2 # b3 # b4 # b5 # b6 # b7 # rest"
  shows "snd (decryptHyperHeader x r) = Returned None
     \<and> (\<forall>n. bit (decExpirationDate (fst (decryptHyperHeader x r))) n
              = (n < 20 \<and> bit (le32 b0 b1 b2 b3) n))
     \<and> (\<forall>n. bit (decClientID (fst (decryptHyperHeader x r))) n
              = (n < 12 \<and> bit (le32 b0 b1 b2 b3) (n + 20)))
     \<and> decRandomBytesLength (fst (decryptHyperHeader x r))
         = uint b4 + 256 * uint b5 + 65536 * uint b6 + 16777216 * uint b7
     \<and> offset (fst (decryptHyperHeader x r))
         = 12 + encryptedDataLength r + decRandomBytesLength (fst (decryptHyperHeader x r))"
proof -
  let ?w = "le32 b0 b1 b2 b3"
  have len: "8 \<le> int (length decryptedData) + int (length spare)"
    using arg_cong [OF assms(4), of length] by simp
  have s1: "Option.bind (subslice decryptedData spare 0 4) Uint32 = Some ?w"
    and s2: "Option.bind (subslice decryptedData spare 4 8) Uint32 = Some (le32 b4 b5 b6 b7)"
    using len by (simp_all add: subslice_def assms(4))
  have d: "decryptHyperHeader x r =
      (r\<lparr> decClientID := drop_bit 20 ?w,
          decExpirationDate := ?w AND 0xFFFFF,
          decRandomBytesLength := uint (le32 b4 b5 b6 b7),
          offset := 12 + encryptedDataLength r + uint (le32 b4 b5 b6 b7) \<rparr>, Returned None)"
    using assms(1,2,3) s1 s2
    by (simp add: decryptHyperHeader_def HyperHeaderLength_def Let_def)
  have c: "bit (drop_bit 20 ?w) n = (n < 12 \<and> bit ?w (n + 20))" for n
  proof (cases "bit ?w (n + 20)")
    case True
    then have "n + 20 < LENGTH(32)"
      by (rule bit_imp_le_length)
    with True show ?thesis
      by (simp add: bit_drop_bit_eq add.commute)
  next
    case False
    then show ?thesis
      by (simp add: bit_drop_bit_eq add.commute)
  qed
  have m: "bit (?w AND 0xFFFFF) n = (n < 20 \<and> bit ?w n)" for n
    unfolding mask20 by (auto simp: bit_and_iff bit_mask_iff)
  show ?thesis
    unfolding d using c m by (simp add: le32_uint)
qed

theorem decryptHyperHeader_fields_witness:
  "base64_DecodeString stub (Key (new4\<lparr> Key := ''a2V5'' \<rparr>)) = Inr [0x61, 0x32, 0x56, 0x35]
   \<and> subslice (data (new4\<lparr> Key := ''a2V5'' \<rparr>)) (slack (new4\<lparr> Key := ''a2V5'' \<rparr>)) 12
         (12 + encryptedDataLength (new4\<lparr> Key := ''a2V5'' \<rparr>))
       = Some [0x10, 0xd5, 0x73, 0x00, 0, 0, 0, 0, 0, 0, 0, 0, 0, 0, 0, 0]
   \<and> AesECBDecrypt stub [0x10, 0xd5, 0x73, 0x00, 0, 0, 0, 0, 0, 0, 0, 0, 0, 0, 0, 0]
         [0x61, 0x32, 0x56, 0x35]
       = Inr ([0x10, 0xd5, 0x73, 0x00, 0, 0, 0, 0], [0, 0, 0, 0, 0, 0, 0, 0])
   \<and> snd (decryptHyperHeader stub (new4\<lparr> Key := ''a2V5'' \<rparr>)) = Returned None
   \<and> decRandomBytesLength (fst (decryptHyperHeader stub (new4\<lparr> Key := ''a2V5'' \<rparr>))) = 0
   \<and> offset (fst (decryptHyperHeader stub (new4\<lparr> Key := ''a2V5'' \<rparr>))) = 28
   \<and> decExpirationDate (fst (decryptHyperHeader stub (new4\<lparr> Key := ''a2V5'' \<rparr>))) = 251152
   \<and> decClientID (fst (decryptHyperHeader stub (new4\<lparr> Key := ''a2V5'' \<rparr>))) = 7"
proof -
  have a: "base64_DecodeString stub (Key (new4\<lparr> Key := ''a2V5'' \<rparr>))
             = Inr [0x61, 0x32, 0x56, 0x35]"
    and b: "subslice (data (new4\<lparr> Key := ''a2V5'' \<rparr>)) (slack (new4\<lparr> Key := ''a2V5'' \<rparr>)) 12
              (12 + encryptedDataLength (new4\<lparr> Key := ''a2V5'' \<rparr>))
             = Some [0x10, 0xd5, 0x73, 0x00, 0, 0, 0, 0, 0, 0, 0, 0, 0, 0, 0, 0]"
    and c: "AesECBDecrypt stub [0x10, 0xd5, 0x73, 0x00, 0, 0, 0, 0, 0, 0, 0, 0, 0, 0, 0, 0]
              [0x61, 0x32, 0x56, 0x35]
             = Inr ([0x10, 0xd5, 0x73, 0x00, 0, 0, 0, 0], [0, 0, 0, 0, 0, 0, 0, 0])"
    and l: "encryptedDataLength (new4\<lparr> Key := ''a2V5'' \<rparr>) = 16"
    and e: "decExpirationDate (fst (decryptHyperHeader stub (new4\<lparr> Key := ''a2V5'' \<rparr>)))
             = 251152"
    and i: "decClientID (fst (decryptHyperHeader stub (new4\<lparr> Key := ''a2V5'' \<rparr>))) = 7"
    by code_simp+
  have p: "[0x10, 0xd5, 0x73, 0x00, 0, 0, 0, 0] @ [0, 0, 0, 0, 0, 0, 0, 0]
             = (0x10 :: byte) # 0xd5 # 0x73 # 0x00 # 0 # 0 # 0 # 0 # [0, 0, 0, 0, 0, 0, 0, 0]"
    by simp
  show ?thesis
    using decryptHyperHeader_fields [OF a b c p] a b c e i by (simp add: l)
qed

subsection \<open>Queries without a form in the width of the database\<close>



subsection \<open>The range returned and the width of the query\<close>

text \<open>
  C1 (the behaviour of the code where it departs from the claim). \<^verbatim>\<open>setupIPVersion\<close>
  takes the width of the stored addresses from bit 0 of the database type, \<^verbatim>\<open>Find\<close>
  converts the query with \<^verbatim>\<open>To4\<close> only when the type is 0. For a type that is not 0 and
  has bit 0 clear, a range that \<^verbatim>\<open>Find\<close> returns from an index block has start and end of
  four bytes, and the query they were compared with has sixteen: the range need not
  hold the query in the width of the database. On \<open>image2\<close> the query 1.2.3.4 gets the
  range from 0.0.0.0 to 0.255.255.255.
\<close>

theorem Find_range_width_mismatch:
  assumes "Init x r0 = (r, Returned None)"
    and "dbType r \<noteq> 0" and "dbType r AND IPv6 = 0"
    and "Find x r ip0 = (r', Returned (Inr (rng, txt)))"
    and "\<not> synthesized r (native_ip r ip0)"
  shows "native_ip r ip0 = To16 ip0 \<and> length (native_ip r ip0) = 16
     \<and> length (Start rng) = 4 \<and> length (End rng) = 4
     \<and> bytes_Compare (native_ip r ip0) (Start rng) \<ge> 0
     \<and> bytes_Compare (native_ip r ip0) (End rng) \<le> 0"
proof -
  note f = Find_found [OF Init_ok(1) [OF assms(1)] assms(4,5)]
  have w: "ipLength r = 4"
    using Init_ok(2) [OF assms(1)] assms(3) by simp
  have n: "native_ip r ip0 = To16 ip0"
    using assms(2) by (simp add: native_ip_def IPv4_def)
  have "To16 ip0 \<noteq> []"
  proof
    assume "To16 ip0 = []"
    with f n w have "bytes_Compare [] (Start rng) \<ge> 0" "length (Start rng) = 4"
      by simp_all
    moreover from this have "Start rng \<noteq> []"
      by auto
    ultimately show False
      using bytes_Compare_Nil [of "Start rng"] by simp
  qed
  with To16_length [of ip0] have "length (To16 ip0) = 16"
    by simp
  with f n w show ?thesis
    by simp
qed

theorem Find_range_width_mismatch_witness:
  "Init stub (new2\<lparr> Key := ''a2V5'' \<rparr>) = (reader2, Returned None)
   \<and> dbType reader2 = 2
   \<and> dbType reader2 AND IPv6 = 0
   \<and> \<not> synthesized reader2 (native_ip reader2 [1, 2, 3, 4])
   \<and> Find stub reader2 [1, 2, 3, 4]
       = (reader2, Returned (Inr (\<lparr> Start = [0, 0, 0, 0], End = [0, 255, 255, 255] \<rparr>, ''CN'')))
   \<and> native_ip reader2 [1, 2, 3, 4] = [0, 0, 0, 0, 0, 0, 0, 0, 0, 0, 0xff, 0xff, 1, 2, 3, 4]
   \<and> ipLength reader2 = 4
   \<and> bytes_Compare [1, 2, 3, 4] [0, 255, 255, 255] = 1"
proof -
  have d: "dbType reader2 = 2" "dbType reader2 \<noteq> 0" "dbType reader2 AND IPv6 = 0"
    and n: "\<not> synthesized reader2 (native_ip reader2 [1, 2, 3, 4])"
    and f: "Find stub reader2 [1, 2, 3, 4]
       = (reader2, Returned (Inr (\<lparr> Start = [0, 0, 0, 0], End = [0, 255, 255, 255] \<rparr>, ''CN'')))"
    and t: "To16 [1, 2, 3, 4] = [0, 0, 0, 0, 0, 0, 0, 0, 0, 0, 0xff, 0xff, 1, 2, 3, 4]"
    and w: "ipLength reader2 = 4"
    and c: "bytes_Compare [1, 2, 3, 4] [0, 255, 255, 255] = 1"
    by code_simp+
  show ?thesis
    using Find_range_width_mismatch [OF reader2_Init d(2,3) f n] reader2_Init d f n w c
    by (simp add: t)
qed

text \<open>
  Where the two tests of the database type agree, that is for the type 0 and for every
  type with bit 0 set, the range holds the query: query, start and end have the width of
  the database, and start \<open>\<le>\<close> query \<open>\<le>\<close> end in the order of \<^verbatim>\<open>bytes.Compare\<close>.
\<close>

lemma Find_range_contains_ip_agreeing_type:
  assumes "Init x r0 = (r, Returned None)"
    and "dbType r = 0 \<or> dbType r AND IPv6 \<noteq> 0"
    and "Find x r ip0 = (r', Returned (Inr (rng, txt)))"
    and "\<not> synthesized r (native_ip r ip0)"
  shows "native_ip r ip0 = (if dbType r = 0 then To4 ip0 else To16 ip0)
     \<and> length (native_ip r ip0) = (if dbType r = 0 then 4 else 16)
     \<and> length (Start rng) = (if dbType r = 0 then 4 else 16)
     \<and> length (End rng) = (if dbType r = 0 then 4 else 16)
     \<and> bytes_Compare (Start rng) (native_ip r ip0) \<le> 0
     \<and> bytes_Compare (native_ip r ip0) (End rng) \<le> 0"
proof -
  note f = Find_found [OF Init_ok(1) [OF assms(1)] assms(3,4)]
  have w: "ipLength r = (if dbType r = 0 then 4 else 16)"
    using Init_ok(2) [OF assms(1)] assms(2) by auto
  have n: "native_ip r ip0 = (if dbType r = 0 then To4 ip0 else To16 ip0)"
    by (simp add: native_ip_def IPv4_def)
  have ne: "native_ip r ip0 \<noteq> []"
  proof
    assume "native_ip r ip0 = []"
    with f w have "bytes_Compare [] (Start rng) \<ge> 0" "Start rng \<noteq> []"
      by (auto split: if_splits)
    then show False
      using bytes_Compare_Nil [of "Start rng"] by auto
  qed
  have "length (native_ip r ip0) = (if dbType r = 0 then 4 else 16)"
    using ne To4_length [of ip0] To16_length [of ip0] by (auto simp: n)
  with f w n show ?thesis
    using bytes_Compare_flip [of "native_ip r ip0" "Start rng"] by auto
qed

subsection \<open>Find and the queries made before\<close>

text \<open>
  C9 (the behaviour of the code where it departs from the claim). Under the conditions
  of C2 the first \<^verbatim>\<open>Find\<close> on the reader panics in \<^verbatim>\<open>Init\<close>. \<^verbatim>\<open>sync.Once\<close> has then run its
  function, \<^verbatim>\<open>initErr\<close> is still nil, and the same call made again on that reader (by a
  caller that has recovered from the panic) does not run \<^verbatim>\<open>Init\<close>: it searches the reader
  as it is, with no header blocks, and returns, with the made-up range for the zero
  address and with \<^verbatim>\<open>ErrInvalidDatabase\<close> for every other query.
\<close>

theorem Find_returns_after_panic:
  assumes "NewReader d sl = Inr r0" and "k \<noteq> []" and "base64_DecodeString x k = Inr keyBytes"
    and "AesECBDecrypt x (take (nat (encryptedDataLength r0)) (drop 12 d)) keyBytes
           = Inr (decryptedData, spare)"
    and "decryptedData @ spare = b0 # b1 # b2 # b3 # b4 # b5 # b6 # b7 # rest"
    and "int (length d) + int (length sl)
           < 12 + encryptedDataLength r0 + uint (le32 b4 b5 b6 b7) + 17"
  shows "snd (Find x (r0\<lparr> Key := k \<rparr>) ip) = Panicked
     \<and> snd (Find x (fst (Find x (r0\<lparr> Key := k \<rparr>) ip)) ip)
         = Returned (if To4 ip = [0, 0, 0, 0]
                     then Inr (\<lparr> Start = [0, 0, 0, 0], End = [0, 0, 0, 0] \<rparr>, ''DataNotFound'')
                     else Inl ErrInvalidDatabase)"
proof -
  from assms(1) have r0: "\<not> inited r0" "\<not> initOnce r0" "initErr r0 = None"
    "dbType r0 = 0" "headerLen r0 = 0"
    by (auto simp: NewReader_def Let_def split: if_splits)
  note i = Init_beyond_capacity [OF assms]
  let ?r1 = "r0\<lparr> Key := k, decClientID := drop_bit 20 (le32 b0 b1 b2 b3),
                decExpirationDate := le32 b0 b1 b2 b3 AND 0xFFFFF,
                decRandomBytesLength := uint (le32 b4 b5 b6 b7),
                offset := 12 + encryptedDataLength r0 + uint (le32 b4 b5 b6 b7),
                initOnce := True \<rparr>"
  have f1: "Find x (r0\<lparr> Key := k \<rparr>) ip = (?r1, Panicked)"
    using r0 by (simp add: Find_def Find_init_def i)
  have s: "Find_search x ?r1 ip
         = Returned (if To4 ip = [0, 0, 0, 0]
                     then Inr (\<lparr> Start = [0, 0, 0, 0], End = [0, 0, 0, 0] \<rparr>, ''DataNotFound'')
                     else Inl ErrInvalidDatabase)"
    using r0 To4_zero [of ip]
    by (simp add: Find_search_def native_ip_def IPv4_def searchHeader_def TempDataNotFound_def
        Let_def)
  have f2: "Find x ?r1 ip = (?r1, Find_search x ?r1 ip)"
    using r0 by (simp add: Find_def Find_init_def)
  show ?thesis
    by (simp add: f1 f2 s)
qed

theorem Find_returns_after_panic_witness:
  "NewReader image_cut (replicate 484 0) = Inr new_cut
   \<and> base64_DecodeString stub ''a2V5'' = Inr [0x61, 0x32, 0x56, 0x35]
   \<and> AesECBDecrypt stub (take 16 (drop 12 image_cut)) [0x61, 0x32, 0x56, 0x35]
       = Inr ([0x10, 0xd5, 0x73, 0x00, 0xff, 0xff, 0xff, 0xff], [0, 0, 0, 0, 0, 0, 0, 0])
   \<and> uint (le32 0xff 0xff 0xff 0xff) = 4294967295
   \<and> length image_cut = 28
   \<and> snd (Find stub (new_cut\<lparr> Key := ''a2V5'' \<rparr>) [0, 0, 0, 0]) = Panicked
   \<and> snd (Find stub (fst (Find stub (new_cut\<lparr> Key := ''a2V5'' \<rparr>) [0, 0, 0, 0])) [0, 0, 0, 0])
       = Returned (Inr (\<lparr> Start = [0, 0, 0, 0], End = [0, 0, 0, 0] \<rparr>, ''DataNotFound''))"
proof -
  have l: "encryptedDataLength new_cut = 16"
    and b: "base64_DecodeString stub ''a2V5'' = Inr [0x61, 0x32, 0x56, 0x35]"
    and a: "AesECBDecrypt stub (take 16 (drop 12 image_cut)) [0x61, 0x32, 0x56, 0x35]
             = Inr ([0x10, 0xd5, 0x73, 0x00, 0xff, 0xff, 0xff, 0xff], [0, 0, 0, 0, 0, 0, 0, 0])"
    and u: "uint (le32 0xff 0xff 0xff 0xff) = 4294967295"
    and len: "length image_cut = 28"
    and t: "To4 [0, 0, 0, 0] = [0, 0, 0, 0]"
    by code_simp+
  have p: "[0x10, 0xd5, 0x73, 0x00, 0xff, 0xff, 0xff, 0xff] @ [0, 0, 0, 0, 0, 0, 0, 0]
             = (0x10 :: byte) # 0xd5 # 0x73 # 0x00 # 0xff # 0xff # 0xff # 0xff
                 # [0, 0, 0, 0, 0, 0, 0, 0]"
    by simp
  have a': "AesECBDecrypt stub (take (nat (encryptedDataLength new_cut)) (drop 12 image_cut))
              [0x61, 0x32, 0x56, 0x35]
             = Inr ([0x10, 0xd5, 0x73, 0x00, 0xff, 0xff, 0xff, 0xff], [0, 0, 0, 0, 0, 0, 0, 0])"
    using a by (simp add: l)
  have c: "int (length image_cut) + int (length (replicate 484 (0 :: byte)))
             < 12 + encryptedDataLength new_cut + uint (le32 0xff 0xff 0xff 0xff) + 17"
    by (simp add: l u len)
  have k: "''a2V5'' \<noteq> []"
    by simp
  show ?thesis
    using Find_returns_after_panic [OF new_cut_NewReader k b a' p c, of "[0, 0, 0, 0]"]
      new_cut_NewReader b a u len
    by (simp add: t)
qed

text \<open>
  As long as no call panics the results do not depend on the calls made before: after
  two sequences of queries, each run on the same reader by calls of \<^verbatim>\<open>Find\<close> that all
  return, \<^verbatim>\<open>Find\<close> for an address gives the same result after the one sequence as after
  the other.
\<close>

lemma Find_same_after_returns:
  assumes "Find_all x r qs1 = (ra, outs1)" and "Panicked \<notin> set outs1"
    and "Find_all x r qs2 = (rb, outs2)" and "Panicked \<notin> set outs2"
  shows "snd (Find x ra ip) = snd (Find x rb ip)"
  using Find_all_frozen [OF assms(1,2)] Find_all_frozen [OF assms(3,4)] by simp

subsection \<open>The text of a record\<close>

text \<open>
  C7. For a payload that decodes to the integer \<open>gpms\<close> and then the string \<open>other\<close>:
  when \<open>gpms\<close> is 0, \<^verbatim>\<open>ParseGeoInfo\<close> returns \<open>other\<close> as it is. Otherwise, when the
  dictionary holds at the pointer and length packed in \<open>gpms\<close> an array of the strings
  \<open>vs\<close>, it returns, for the positions \<open>i\<close> of \<open>vs\<close> whose bit \<open>i + 1\<close> of the column
  selection is set and in their order, the string at \<open>i\<close> (\<^verbatim>\<open>null\<close> for an empty one)
  followed by a TAB, and after these in every case, also when no position is selected,
  one more TAB and \<open>other\<close>.
\<close>

theorem ParseGeoInfo_text:
  assumes "DecodeInt64 x d = Inr (gpms, dec1)" and "DecodeString x dec1 = Inr (other, dec2)"
    and "gpms \<noteq> 0 \<Longrightarrow>
           subslice (gdata g) [] (gpms AND 0xFFFFFF) ((gpms AND 0xFFFFFF) + (drop_bit 24 gpms AND 0xFF))
             = Some entry
           \<and> DecodeArrayLen x entry = Inr (int (length vs), dec3)
           \<and> reads_strings x dec3 vs"
  shows "ParseGeoInfo x g d =
           Returned (Inr (if gpms = 0 then other
                          else projected (columnSelection g) vs @ [CHR 0x09] @ other))"
proof (cases "gpms = 0")
  case True
  with assms(1,2) show ?thesis
    by (simp add: ParseGeoInfo_def)
next
  case False
  note w = assms(3) [OF False]
  from w have b: "\<not> int (length (gdata g)) < (gpms AND 0xFFFFFF) + (drop_bit 24 gpms AND 0xFF)"
    by (auto simp: subslice_def split: if_splits)
  have l: "ParseGeoInfo_loop x g (int (length vs)) 0 dec3 []
             = Inr (projected (columnSelection g) vs)"
    using ParseGeoInfo_loop_projected [of x dec3 0 vs g "[]"] w
    by (simp add: projected_def)
  show ?thesis
    using False assms(1,2) w b l
    by (simp add: ParseGeoInfo_def Let_def)
qed

theorem ParseGeoInfo_text_witness:
  "DecodeInt64 stub [0xce, 8, 0, 0, 0, 0xa2, 0x49, 0x53] = Inr (134217728, [0xa2, 0x49, 0x53])
   \<and> DecodeString stub [0xa2, 0x49, 0x53] = Inr (''IS'', [])
   \<and> subslice (gdata geo1) [] 0 8 = Some [0x93, 0xa2, 0x43, 0x4e, 0xa0, 0xa2, 0x5a, 0x4a]
   \<and> DecodeArrayLen stub [0x93, 0xa2, 0x43, 0x4e, 0xa0, 0xa2, 0x5a, 0x4a]
       = Inr (3, [0xa2, 0x43, 0x4e, 0xa0, 0xa2, 0x5a, 0x4a])
   \<and> reads_strings stub [0xa2, 0x43, 0x4e, 0xa0, 0xa2, 0x5a, 0x4a] [''CN'', [], ''ZJ'']
   \<and> ParseGeoInfo stub geo1 [0xce, 8, 0, 0, 0, 0xa2, 0x49, 0x53]
       = Returned (Inr [CHR ''C'', CHR ''N'', CHR 0x09, CHR ''n'', CHR ''u'', CHR ''l'', CHR ''l'',
                        CHR 0x09, CHR 0x09, CHR ''I'', CHR ''S''])
   \<and> ParseGeoInfo stub (geo1\<lparr> columnSelection := 1 \<rparr>) [0xce, 8, 0, 0, 0, 0xa2, 0x49, 0x53]
       = Returned (Inr [CHR 0x09, CHR ''I'', CHR ''S''])
   \<and> DecodeInt64 stub [0, 0xa2, 0x49, 0x53] = Inr (0, [0xa2, 0x49, 0x53])
   \<and> ParseGeoInfo stub geo1 [0, 0xa2, 0x49, 0x53] = Returned (Inr ''IS'')"
proof -
  have a: "DecodeInt64 stub [0xce, 8, 0, 0, 0, 0xa2, 0x49, 0x53]
             = Inr (134217728, [0xa2, 0x49, 0x53])"
    and a0: "DecodeInt64 stub [0, 0xa2, 0x49, 0x53] = Inr (0, [0xa2, 0x49, 0x53])"
    and b: "DecodeString stub [0xa2, 0x49, 0x53] = Inr (''IS'', [])"
    and m: "(134217728 :: int) AND 0xFFFFFF = 0" "drop_bit 24 (134217728 :: int) AND 0xFF = 8"
    and c: "subslice (gdata geo1) [] 0 8 = Some [0x93, 0xa2, 0x43, 0x4e, 0xa0, 0xa2, 0x5a, 0x4a]"
    and c1: "gdata (geo1\<lparr> columnSelection := 1 \<rparr>) = gdata geo1"
    and e: "DecodeArrayLen stub [0x93, 0xa2, 0x43, 0x4e, 0xa0, 0xa2, 0x5a, 0x4a]
             = Inr (3, [0xa2, 0x43, 0x4e, 0xa0, 0xa2, 0x5a, 0x4a])"
    and f: "reads_strings stub [0xa2, 0x43, 0x4e, 0xa0, 0xa2, 0x5a, 0x4a] [''CN'', [], ''ZJ'']"
    and p: "projected (columnSelection geo1) [''CN'', [], ''ZJ'']
             = [CHR ''C'', CHR ''N'', CHR 0x09, CHR ''n'', CHR ''u'', CHR ''l'', CHR ''l'', CHR 0x09]"
      "projected 1 [''CN'', [], ''ZJ''] = []"
    by code_simp+
  have w: "subslice (gdata geo1) [] (134217728 AND 0xFFFFFF)
               ((134217728 AND 0xFFFFFF) + (drop_bit 24 134217728 AND 0xFF))
             = Some [0x93, 0xa2, 0x43, 0x4e, 0xa0, 0xa2, 0x5a, 0x4a]
           \<and> DecodeArrayLen stub [0x93, 0xa2, 0x43, 0x4e, 0xa0, 0xa2, 0x5a, 0x4a]
               = Inr (int (length [''CN'', [], ''ZJ'']), [0xa2, 0x43, 0x4e, 0xa0, 0xa2, 0x5a, 0x4a])
           \<and> reads_strings stub [0xa2, 0x43, 0x4e, 0xa0, 0xa2, 0x5a, 0x4a] [''CN'', [], ''ZJ'']"
    using c e f by (simp add: m)
  have w1: "subslice (gdata (geo1\<lparr> columnSelection := 1 \<rparr>)) [] (134217728 AND 0xFFFFFF)
               ((134217728 AND 0xFFFFFF) + (drop_bit 24 134217728 AND 0xFF))
             = Some [0x93, 0xa2, 0x43, 0x4e, 0xa0, 0xa2, 0x5a, 0x4a]
           \<and> DecodeArrayLen stub [0x93, 0xa2, 0x43, 0x4e, 0xa0, 0xa2, 0x5a, 0x4a]
               = Inr (int (length [''CN'', [], ''ZJ'']), [0xa2, 0x43, 0x4e, 0xa0, 0xa2, 0x5a, 0x4a])
           \<and> reads_strings stub [0xa2, 0x43, 0x4e, 0xa0, 0xa2, 0x5a, 0x4a] [''CN'', [], ''ZJ'']"
    using w by (simp add: c1)
  show ?thesis
    using ParseGeoInfo_text [OF a b w] ParseGeoInfo_text [OF a b w1]
      ParseGeoInfo_text [OF a0 b, where g = geo1 and vs = "[]"]
      a a0 b c e f
    by (simp add: p)
qed

subsection \<open>Reads beyond the image\<close>

text \<open>
  C2 (the behaviour of the code where it departs from the claim). \<^verbatim>\<open>Init\<close> does not
  compare the offset it computes from the decrypted metadata with the image. For a
  reader that \<^verbatim>\<open>NewReader\<close> has accepted and a key that decodes, when the end of the super
  part at that offset lies past the capacity of the image, the slice expression of
  \<^verbatim>\<open>parseSuperPart\<close> is out of range: \<^verbatim>\<open>Init\<close> and \<^verbatim>\<open>Find\<close> panic and return no error.
\<close>

theorem Find_panics_beyond_capacity:
  assumes "NewReader d sl = Inr r0" and "k \<noteq> []" and "base64_DecodeString x k = Inr keyBytes"
    and "AesECBDecrypt x (take (nat (encryptedDataLength r0)) (drop 12 d)) keyBytes
           = Inr (decryptedData, spare)"
    and "decryptedData @ spare = b0 # b1 # b2 # b3 # b4 # b5 # b6 # b7 # rest"
    and "int (length d) + int (length sl)
           < 12 + encryptedDataLength r0 + uint (le32 b4 b5 b6 b7) + 17"
  shows "snd (Init x (r0\<lparr> Key := k \<rparr>)) = Panicked \<and> snd (Find x (r0\<lparr> Key := k \<rparr>) ip) = Panicked"
proof -
  from assms(1) have r0: "\<not> inited r0" "\<not> initOnce r0"
    by (auto simp: NewReader_def Let_def split: if_splits)
  note i = Init_beyond_capacity [OF assms]
  show ?thesis
    using r0 by (simp add: Find_def Find_init_def i)
qed

theorem Find_panics_beyond_capacity_witness:
  "NewReader image_cut (replicate 484 0) = Inr new_cut
   \<and> ''a2V5'' \<noteq> []
   \<and> base64_DecodeString stub ''a2V5'' = Inr [0x61, 0x32, 0x56, 0x35]
   \<and> AesECBDecrypt stub (take 16 (drop 12 image_cut)) [0x61, 0x32, 0x56, 0x35]
       = Inr ([0x10, 0xd5, 0x73, 0x00, 0xff, 0xff, 0xff, 0xff], [0, 0, 0, 0, 0, 0, 0, 0])
   \<and> uint (le32 0xff 0xff 0xff 0xff) = 4294967295
   \<and> length image_cut + length (replicate 484 (0 :: byte)) = 512
   \<and> snd (Init stub (new_cut\<lparr> Key := ''a2V5'' \<rparr>)) = Panicked
   \<and> snd (Find stub (new_cut\<lparr> Key := ''a2V5'' \<rparr>) [1, 0, 0, 5]) = Panicked"
proof -
  have l: "encryptedDataLength new_cut = 16"
    and b: "base64_DecodeString stub ''a2V5'' = Inr [0x61, 0x32, 0x56, 0x35]"
    and a: "AesECBDecrypt stub (take 16 (drop 12 image_cut)) [0x61, 0x32, 0x56, 0x35]
             = Inr ([0x10, 0xd5, 0x73, 0x00, 0xff, 0xff, 0xff, 0xff], [0, 0, 0, 0, 0, 0, 0, 0])"
    and u: "uint (le32 0xff 0xff 0xff 0xff) = 4294967295"
    and len: "length image_cut = 28"
    by code_simp+
  have p: "[0x10, 0xd5, 0x73, 0x00, 0xff, 0xff, 0xff, 0xff] @ [0, 0, 0, 0, 0, 0, 0, 0]
             = (0x10 :: byte) # 0xd5 # 0x73 # 0x00 # 0xff # 0xff # 0xff # 0xff
                 # [0, 0, 0, 0, 0, 0, 0, 0]"
    by simp
  have a': "AesECBDecrypt stub (take (nat (encryptedDataLength new_cut)) (drop 12 image_cut))
              [0x61, 0x32, 0x56, 0x35]
             = Inr ([0x10, 0xd5, 0x73, 0x00, 0xff, 0xff, 0xff, 0xff], [0, 0, 0, 0, 0, 0, 0, 0])"
    using a by (simp add: l)
  have c: "int (length image_cut) + int (length (replicate 484 (0 :: byte)))
             < 12 + encryptedDataLength new_cut + uint (le32 0xff 0xff 0xff 0xff) + 17"
    by (simp add: l u len)
  have k: "''a2V5'' \<noteq> []"
    by simp
  show ?thesis
    using Find_panics_beyond_capacity [OF new_cut_NewReader k b a' p c, of "[1, 0, 0, 5]"]
      new_cut_NewReader b a u len
    by simp
qed

text \<open>
  A file that ends inside the capacity is read on, past its end: the first 28 bytes of
  \<open>image4\<close> in a buffer of capacity 512 make a reader that \<^verbatim>\<open>Init\<close> initialises from the
  bytes after the file.
\<close>

lemma Init_reads_past_length:
  "NewReader (take 28 image4) (replicate 484 0)
     = Inr (new4\<lparr> data := take 28 image4, slack := replicate 484 0 \<rparr>)
   \<and> snd (Init stub (new4\<lparr> data := take 28 image4, slack := replicate 484 0,
                          Key := ''a2V5'' \<rparr>)) = Returned None"
  by code_simp

text \<open>
  The one read that is checked: \<^verbatim>\<open>ParseGeoInfo\<close> compares pointer and length with the
  length of the dictionary before it slices, and never panics.
\<close>

lemma ParseGeoInfo_returns: "ParseGeoInfo x g d \<noteq> Panicked"
  by (auto simp: ParseGeoInfo_def Let_def subslice_def and_nonnegative_int_iff
      split: sum.splits option.splits prod.splits)

end
